theory Spec2Isabelle
  imports Complex_Main
begin

section \<open>Cells, series and frames\<close>

text \<open>
  The two scripts, \<^verbatim>\<open>clean_data.py\<close> and \<^verbatim>\<open>analysis.py\<close>, work on one pandas
  DataFrame. A cell of the frame is either missing (\<open>NaN\<close>), a number or a string.
  Numbers are modelled as exact rationals: an integer code \<open>98\<close> and the float \<open>98.0\<close>
  that pandas stores in a column with missing cells are the same key of a Python
  dictionary, and are the same \<open>Num 98\<close> here. Strings are byte strings (UTF-8). A column
  that pandas reads as booleans is not modelled.
  A series is the list of the cells of one column, a frame the list of its named
  columns, in the order of the file.
\<close>

datatype cell = NaN | Num rat | Str string

type_synonym series = "cell list"

type_synonym frame = "(string \<times> series) list"

definition columns :: "frame \<Rightarrow> string list" where
  "columns df = map fst df"

definition nrows :: "frame \<Rightarrow> nat" where
  "nrows df = (case df of [] \<Rightarrow> 0 | (c, s) # rest \<Rightarrow> length s)"

text \<open>
  A frame read by \<^verbatim>\<open>pd.read_csv\<close> has columns of one length and pairwise different
  names.
\<close>

definition wf_frame :: "frame \<Rightarrow> bool" where
  "wf_frame df = (distinct (columns df) \<and> list_all (\<lambda>(c, s). length s = nrows df) df)"

text \<open>
  \<^verbatim>\<open>df[col] = f(df[col])\<close>: the column named \<open>col\<close> is replaced in place, the others
  and the order of the columns stay.
\<close>

definition update_col :: "string \<Rightarrow> (series \<Rightarrow> series) \<Rightarrow> frame \<Rightarrow> frame" where
  "update_col col f df = map (\<lambda>(c, s). if c = col then (c, f s) else (c, s)) df"

text \<open>
  A Python dictionary literal is the list of its items in the order written; a later
  item with the same key wins, as in \<^verbatim>\<open>{**a, **b}\<close>.
\<close>

definition dict_get :: "('k \<times> 'v) list \<Rightarrow> 'k \<Rightarrow> 'v option" where
  "dict_get d k = map_of (rev d) k"

definition dict_keys :: "('k \<times> 'v) list \<Rightarrow> 'k list" where
  "dict_keys d = map fst d"

section \<open>Python's \<open>str\<close> on integers\<close>

definition digit_char :: "nat \<Rightarrow> char" where
  "digit_char d = char_of (48 + d)"

function str_nat :: "nat \<Rightarrow> string" where
  "str_nat n = (if n < 10 then [digit_char n] else str_nat (n div 10) @ [digit_char (n mod 10)])"
  by pat_completeness auto
termination
  by (relation "measure (\<lambda>n. n)") auto

declare str_nat.simps [simp del]

definition str_int :: "int \<Rightarrow> string" where
  "str_int i = (if i < 0 then CHR ''-'' # str_nat (nat (- i)) else str_nat (nat i))"

section \<open>The code maps of \<^verbatim>\<open>clean_data.py\<close>\<close>

type_synonym code_map = "(int \<times> string) list"

definition DK_REF :: code_map where
  "DK_REF = [(98, ''Don't know''), (99, ''Prefer not to say'')]"

definition YES_NO :: code_map where
  "YES_NO = [(1, ''Yes''), (2, ''No'')] @ DK_REF"

definition FREQ_1_3 :: code_map where
  "FREQ_1_3 = [(1, ''Frequently''), (2, ''Sometimes''), (3, ''Never'')] @ DK_REF"

definition AGREE_1_7 :: code_map where
  "AGREE_1_7 = [(1, ''Strongly disagree''), (2, ''''), (3, ''''), (4, ''Neither''), (5, ''''),
     (6, ''''), (7, ''Strongly agree'')] @ DK_REF"

definition SCALE_1_7_KNOW :: code_map where
  "SCALE_1_7_KNOW = [(1, ''Very low''), (2, ''''), (3, ''''), (4, ''''), (5, ''''), (6, ''''),
     (7, ''Very high'')] @ DK_REF"

definition SCALE_1_10 :: code_map where
  "SCALE_1_10 = map (\<lambda>i. (i, str_int i)) [1..10] @ DK_REF"

definition TRUE_FALSE :: code_map where
  "TRUE_FALSE = [(1, ''True''), (2, ''False'')] @ DK_REF"

definition A3_gender :: code_map where
  "A3_gender = [(1, ''Male''), (2, ''Female'')]"

definition A5_edu :: code_map where
  "A5_edu = [(1, ''Did not complete high school''), (2, ''High school diploma''),
     (3, ''GED/alternative credential''), (4, ''Some college''), (5, ''College graduate''),
     (6, ''Post graduate''), (99, ''Prefer not to say'')]"

definition A6_marital :: code_map where
  "A6_marital = [(1, ''Married''), (2, ''Single''), (3, ''Separated''), (4, ''Divorced''),
     (5, ''Widowed''), (99, ''Prefer not to say'')]"

definition A7_living :: code_map where
  "A7_living = [(1, ''Only adult in household''), (2, ''Live with spouse/partner''),
     (3, ''Live in parents' home''), (4, ''Live with other family/friends/roommates''),
     (99, ''Prefer not to say'')]"

definition A11_children :: code_map where
  "A11_children = [(1, ''1''), (2, ''2''), (3, ''3''), (4, ''4 or more''),
     (5, ''No financially dependent children''), (6, ''No children''),
     (99, ''Prefer not to say'')]"

text \<open>
  Some labels of the source hold an en dash (U+2013), three bytes in UTF-8.
\<close>

definition en_dash :: string where
  "en_dash = [CHR 0xE2, CHR 0x80, CHR 0x93]"

definition A8_income :: code_map where
  "A8_income = [(1, ''< $15,000''), (2, ''$15k'' @ en_dash @ ''$24,999''),
     (3, ''$25k'' @ en_dash @ ''$34,999''), (4, ''$35k'' @ en_dash @ ''$49,999''),
     (5, ''$50k'' @ en_dash @ ''$74,999''), (6, ''$75k'' @ en_dash @ ''$99,999''),
     (7, ''$100k'' @ en_dash @ ''$149,999''), (8, ''$150k+'')] @ DK_REF"

definition AM21_22_service :: code_map where
  "AM21_22_service = [(1, ''Currently member''), (2, ''Previously member''),
     (3, ''Never member''), (99, ''Prefer not to say'')]"

definition A9_work :: code_map where
  "A9_work = [(1, ''Self-employed''), (2, ''Employed full-time''), (3, ''Employed part-time''),
     (4, ''Homemaker''), (5, ''Full-time student''), (6, ''Unable to work''),
     (7, ''Unemployed/laid off''), (8, ''Retired''), (99, ''Prefer not to say'')]"

definition E4a_buy_year :: code_map where
  "E4a_buy_year = [(1, ''1999 or earlier''), (2, ''2000''), (3, ''2001''), (4, ''2002''),
     (5, ''2003''), (6, ''2004''), (7, ''2005''), (8, ''2006''), (9, ''2007''), (10, ''2008''),
     (11, ''2009''), (12, ''2010''), (13, ''2011''), (14, ''2012''),
     (97, ''Did not purchase'')] @ DK_REF"

definition F1_cc_num :: code_map where
  "F1_cc_num = [(1, ''1''), (2, ''2'' @ en_dash @ ''3''), (3, ''4'' @ en_dash @ ''8''),
     (4, ''9'' @ en_dash @ ''12''), (5, ''13'' @ en_dash @ ''20''), (6, ''>20''),
     (7, ''No credit cards'')] @ DK_REF"

definition G25_freq :: code_map where
  "G25_freq = [(1, ''Never''), (2, ''1 time''), (3, ''2 times''), (4, ''3 times''),
     (5, ''4+ times'')] @ DK_REF"

definition M6_interest :: code_map where
  "M6_interest = [(1, ''More than $102''), (2, ''Exactly $102''), (3, ''Less than $102'')] @ DK_REF"

definition M7_inflation :: code_map where
  "M7_inflation = [(1, ''More than today''), (2, ''Exactly the same''), (3, ''Less than today'')]
     @ DK_REF"

definition M8_bonds :: code_map where
  "M8_bonds = [(1, ''Rise''), (2, ''Fall''), (3, ''Same''), (4, ''No relationship'')] @ DK_REF"

definition COLUMN_MAPS :: "(string \<times> code_map) list" where
  "COLUMN_MAPS = [
     (''A3'', A3_gender), (''A5'', A5_edu), (''A6'', A6_marital), (''A7'', A7_living),
     (''A11'', A11_children), (''A8'', A8_income), (''AM21'', AM21_22_service),
     (''AM22'', AM21_22_service), (''A9'', A9_work),
     (''E4a'', E4a_buy_year),
     (''F1'', F1_cc_num),
     (''M6'', M6_interest), (''M7'', M7_inflation), (''M8'', M8_bonds),
     (''M9'', TRUE_FALSE), (''M10'', TRUE_FALSE),
     (''G23'', AGREE_1_7),
     (''J1'', SCALE_1_10), (''J2'', SCALE_1_10), (''M4'', SCALE_1_7_KNOW)]"

definition PREFIX_MAPS :: "(string \<times> code_map) list" where
  "PREFIX_MAPS = [
     (''B20_'', YES_NO), (''B22_'', FREQ_1_3), (''K_'', YES_NO), (''D20_'', YES_NO),
     (''F2_'', YES_NO), (''G25_'', G25_freq), (''M21_'', YES_NO), (''M1_'', AGREE_1_7)]"

section \<open>The safe mapping\<close>

text \<open>
  \<^verbatim>\<open>mixed = {**m, **{str(k): v for k, v in m.items()}}\<close>: the items of \<open>m\<close> under their
  integer keys, then once more under the string form of each key.
\<close>

definition mixed :: "code_map \<Rightarrow> (cell \<times> string) list" where
  "mixed m = map (\<lambda>(k, v). (Num (of_int k), v)) m @ map (\<lambda>(k, v). (Str (str_int k), v)) m"

text \<open>
  \<^verbatim>\<open>s.map(d)\<close> looks every cell up in the dictionary; a cell that is no key (a
  missing cell is none) becomes missing. \<^verbatim>\<open>a.fillna(b)\<close> takes the cell of \<open>b\<close> where
  that of \<open>a\<close> is missing.
\<close>

definition series_map :: "(cell \<times> string) list \<Rightarrow> series \<Rightarrow> series" where
  "series_map d s = map (\<lambda>v. case dict_get d v of Some l \<Rightarrow> Str l | None \<Rightarrow> NaN) s"

definition fillna :: "series \<Rightarrow> series \<Rightarrow> series" where
  "fillna a b = map (\<lambda>(x, y). if x = NaN then y else x) (zip a b)"

definition apply_map_safe :: "series \<Rightarrow> code_map \<Rightarrow> series" where
  "apply_map_safe s m = fillna (series_map (mixed m) s) s"

text \<open>What \<open>apply_map_safe\<close> does to one cell.\<close>

definition recode_cell :: "code_map \<Rightarrow> cell \<Rightarrow> cell" where
  "recode_cell m v = (case dict_get (mixed m) v of Some l \<Rightarrow> Str l | None \<Rightarrow> v)"

section \<open>The Recoder: \<^verbatim>\<open>clean_data.py\<close>\<close>

subsection \<open>Reading and normalising\<close>

text \<open>
  White space is what Python's \<open>str.isspace\<close> and the \<open>\s\<close> of its regular expressions
  take for it: the code points 9 to 13, 28 to 32, U+0085, U+00A0, U+1680, U+2000 to
  U+200A, U+2028, U+2029, U+202F, U+205F and U+3000. A string is the list of its UTF-8
  bytes, so a white space character is one byte, or the two or three bytes that encode
  it. \<open>space_len\<close> is the number of bytes of the white space character at the head of a
  string, 0 when the string does not begin with one.
\<close>

definition is_space :: "char \<Rightarrow> bool" where
  "is_space c = (of_char c \<in> {9, 10, 11, 12, 13, 28, 29, 30, 31, 32 :: nat})"

definition space_len :: "string \<Rightarrow> nat" where
  "space_len s =
     (case s of
        [] \<Rightarrow> 0
      | x # r \<Rightarrow>
          if is_space x then 1
          else (case map of_char (take 3 s) of
                  [a, b] \<Rightarrow> if a = (0xC2 :: nat) \<and> (b = 0x85 \<or> b = 0xA0) then 2 else 0
                | [a, b, c] \<Rightarrow>
                    if a = 0xC2 \<and> (b = 0x85 \<or> b = 0xA0) then 2
                    else if a = 0xE1 \<and> b = 0x9A \<and> c = 0x80 then 3
                    else if a = 0xE2 \<and> b = 0x80 \<and> (0x80 \<le> c \<and> c \<le> 0x8A) then 3
                    else if a = 0xE2 \<and> b = 0x80 \<and> (c = 0xA8 \<or> c = 0xA9 \<or> c = 0xAF) then 3
                    else if a = 0xE2 \<and> b = 0x81 \<and> c = 0x9F then 3
                    else if a = 0xE3 \<and> b = 0x80 \<and> c = 0x80 then 3
                    else 0
                | _ \<Rightarrow> 0))"

text \<open>A string without its white space characters.\<close>

fun remove_space :: "string \<Rightarrow> string" where
  "remove_space [] = []"
| "remove_space (x # r) =
     (if space_len (x # r) = 0 then x # remove_space r
      else remove_space (drop (space_len (x # r) - 1) r))"

text \<open>
  \<^verbatim>\<open>df.replace(r"^\s*$", np.nan, regex=True)\<close>: a string cell made of white space only
  (the empty string too) becomes missing.
\<close>

definition blank_cell :: "cell \<Rightarrow> cell" where
  "blank_cell v = (case v of Str t \<Rightarrow> if remove_space t = [] then NaN else Str t | _ \<Rightarrow> v)"

definition blank_normalize :: "frame \<Rightarrow> frame" where
  "blank_normalize df = map (\<lambda>(c, s). (c, map blank_cell s)) df"

text \<open>
  \<^verbatim>\<open>df.columns.str.strip().str.replace(r"\s+", "", regex=True)\<close>: every white space
  character of a column name is removed.
\<close>

definition normalize_columns :: "frame \<Rightarrow> frame" where
  "normalize_columns df = map (\<lambda>(c, s). (remove_space c, s)) df"

text \<open>
  \<^verbatim>\<open>df.rename(columns={k: v for k, v in d.items() if k in df.columns})\<close>.
\<close>

definition rename_columns :: "(string \<times> string) list \<Rightarrow> frame \<Rightarrow> frame" where
  "rename_columns d df =
     (let present = filter (\<lambda>(k, v). k \<in> set (columns df)) d
      in map (\<lambda>(c, s). (case dict_get present c of Some c' \<Rightarrow> c' | None \<Rightarrow> c, s)) df)"

definition pre_rename :: "(string \<times> string) list" where
  "pre_rename = [
     (''A5_2012'', ''A5''),
     (''C1_2012'', ''C1''), (''C2_2012'', ''C2''), (''C3_2012'', ''C3''), (''C4_2012'', ''C4''),
     (''C5_2012'', ''C5''), (''C10_2012'', ''C10''), (''C11_2012'', ''C11''),
     (''E5_2012'', ''E5''),
     (''EA_1'', ''Ea_1''),
     (''EA_2A'', ''Ea_2a''),
     (''E4A'', ''E4a'')]"

subsection \<open>Applying the mappings\<close>

text \<open>
  \<^verbatim>\<open>for col, mapping in COLUMN_MAPS.items(): if col in df.columns: df[col] = apply_map_safe(df[col], mapping)\<close>

  The functions of this part are total. On a frame with two columns of one name, which
  the renaming above can produce (\<open>A5_2012\<close> beside \<open>A5\<close>), \<^verbatim>\<open>df[col]\<close> is a frame and not a
  series and the script raises at the assignment; this is not modelled, and \<open>update_col\<close>
  recodes each column of the name.
\<close>

definition apply_column_maps :: "(string \<times> code_map) list \<Rightarrow> frame \<Rightarrow> frame" where
  "apply_column_maps reg df =
     fold (\<lambda>(col, mapping) d.
            if col \<in> set (columns d) then update_col col (\<lambda>s. apply_map_safe s mapping) d else d)
          reg df"

definition startswith :: "string \<Rightarrow> string \<Rightarrow> bool" where
  "startswith c p = (take (length p) c = p)"

text \<open>
  \<^verbatim>\<open>for prefix, mapping in PREFIX_MAPS.items(): for col in [c for c in df.columns if c.startswith(prefix)]: df[col] = apply_map_safe(df[col], mapping)\<close>
\<close>

definition apply_prefix_maps :: "(string \<times> code_map) list \<Rightarrow> frame \<Rightarrow> frame" where
  "apply_prefix_maps reg df =
     fold (\<lambda>(p, mapping) d.
            fold (\<lambda>col d'. update_col col (\<lambda>s. apply_map_safe s mapping) d')
                 (filter (\<lambda>c. startswith c p) (columns d)) d)
          reg df"

text \<open>
  \<^verbatim>\<open>s.replace(d)\<close>: a cell equal to a key of \<open>d\<close> becomes the value of that key, every
  other cell stays.
\<close>

definition replace_cell :: "(cell \<times> cell) list \<Rightarrow> cell \<Rightarrow> cell" where
  "replace_cell d v = (case dict_get d v of Some w \<Rightarrow> w | None \<Rightarrow> v)"

definition series_replace :: "(cell \<times> cell) list \<Rightarrow> series \<Rightarrow> series" where
  "series_replace d s = map (replace_cell d) s"

definition E5_numeric :: "(cell \<times> cell) list" where
  "E5_numeric = [(Num (- 98), Str ''Don't know''), (Num (- 99), Str ''Prefer not to say'')]"

definition E5_textual :: "(cell \<times> cell) list" where
  "E5_textual = [(Str ''-98'', Str ''Don't know''), (Str ''-99'', Str ''Prefer not to say'')]"

definition E5_replace :: "series \<Rightarrow> series" where
  "E5_replace s = series_replace E5_textual (series_replace E5_numeric s)"

definition A3a_sentinels :: "(cell \<times> cell) list" where
  "A3a_sentinels = [(Num 999, Str ''Prefer not to say''), (Str ''999'', Str ''Prefer not to say'')]"

definition A3a_replace :: "series \<Rightarrow> series" where
  "A3a_replace s = series_replace A3a_sentinels s"

definition special_cases :: "frame \<Rightarrow> frame" where
  "special_cases df =
     (let d1 = (if ''E5'' \<in> set (columns df) then update_col ''E5'' E5_replace df else df)
      in if ''A3a'' \<in> set (columns d1) then update_col ''A3a'' A3a_replace d1 else d1)"

text \<open>The mapping pass: the exact-column maps, then the prefix maps, then the special cases.\<close>

definition recode :: "frame \<Rightarrow> frame" where
  "recode df = special_cases (apply_prefix_maps PREFIX_MAPS (apply_column_maps COLUMN_MAPS df))"

subsection \<open>Cleanup and friendly names\<close>

text \<open>
  \<^verbatim>\<open>df.dropna(axis=1, how="all")\<close> drops the columns whose cells are all missing. A string,
  the empty string too, is not missing.
\<close>

definition dropna_columns :: "frame \<Rightarrow> frame" where
  "dropna_columns df = filter (\<lambda>(c, s). \<not> list_all (\<lambda>v. v = NaN) s) df"

definition friendly_names :: "(string \<times> string) list" where
  "friendly_names = [
     (''NFCSID'', ''Respondent_ID''), (''STATEQ'', ''State''), (''CENSUSDIV'', ''Census_Division''),
     (''CENSUSREG'', ''Census_Region''),
     (''A3'', ''Gender''), (''A3a'', ''Age''), (''A3Ar_w'', ''Age_Category_Code''),
     (''A5'', ''Education''), (''A6'', ''Marital_Status''),
     (''A7'', ''Living_Arrangement''), (''A8'', ''Household_Income''),
     (''AM21'', ''Military_Service_Self''), (''AM22'', ''Military_Service_HH''),
     (''A9'', ''Employment_Status''),
     (''wgt_n2'', ''Weight_N''), (''wgt_d2'', ''Weight_D''), (''wgt_s3'', ''Weight_S''),
     (''M6'', ''Q_Interest''), (''M7'', ''Q_Inflation''), (''M8'', ''Q_Bonds''), (''M9'', ''Q_Risk''),
     (''M10'', ''Q_Mortgage'')]"

text \<open>
  The whole script, from the frame read to the frame written. The samples it prints of
  the mapped columns and the writing of the file do not change the frame and are left
  out.
\<close>

definition clean :: "frame \<Rightarrow> frame" where
  "clean df =
     rename_columns friendly_names
       (dropna_columns
         (recode
           (rename_columns pre_rename
             (normalize_columns
               (blank_normalize df)))))"

section \<open>Notions used in the statements\<close>

text \<open>
  A cell denotes the integer code \<open>k\<close> when it is the number \<open>k\<close> or the string that
  Python's \<open>str\<close> gives for \<open>k\<close>.
\<close>

definition denotes :: "cell \<Rightarrow> int \<Rightarrow> bool" where
  "denotes v k = (v = Num (of_int k) \<or> v = Str (str_int k))"

text \<open>Reading a decimal string back, the inverse of \<open>str_nat\<close>.\<close>

definition digit_val :: "char \<Rightarrow> nat" where
  "digit_val c = of_char c - 48"

definition parse_nat :: "string \<Rightarrow> nat" where
  "parse_nat s = fold (\<lambda>c acc. 10 * acc + digit_val c) s 0"

text \<open>\<^verbatim>\<open>s.isna()\<close>, and the same for every column of a frame.\<close>

definition isna :: "series \<Rightarrow> bool list" where
  "isna s = map (\<lambda>v. v = NaN) s"

definition frame_isna :: "frame \<Rightarrow> (string \<times> bool list) list" where
  "frame_isna df = map (\<lambda>(c, s). (c, isna s)) df"

text \<open>
  A code map is label-stable when each of its labels that is also the string form of
  one of its keys is the label of that key, as \<open>''1''\<close> is in the scale \<open>1..10\<close>.
\<close>

definition label_stable :: "code_map \<Rightarrow> bool" where
  "label_stable m =
     list_all (\<lambda>(k, l). case dict_get (mixed m) (Str l) of None \<Rightarrow> True | Some l' \<Rightarrow> l' = l) m"

text \<open>
  The code maps that the two loops apply to the column named \<open>c\<close>, in the order they are
  applied, and what the special cases do to a cell of that column.
\<close>

definition governing :: "string \<Rightarrow> code_map list" where
  "governing c =
     map snd (filter (\<lambda>(col, m). col = c) COLUMN_MAPS) @
     map snd (filter (\<lambda>(p, m). startswith c p) PREFIX_MAPS)"

definition special_cell :: "string \<Rightarrow> cell \<Rightarrow> cell" where
  "special_cell c v =
     (let v1 = (if c = ''E5'' then replace_cell E5_textual (replace_cell E5_numeric v) else v)
      in if c = ''A3a'' then replace_cell A3a_sentinels v1 else v1)"

definition recode_value :: "string \<Rightarrow> cell \<Rightarrow> cell" where
  "recode_value c v = special_cell c (fold recode_cell (governing c) v)"

text \<open>
  The keys of a code map are integers: a cell is a key of the map when it is the number
  of one of them.
\<close>

definition is_key :: "code_map \<Rightarrow> cell \<Rightarrow> bool" where
  "is_key m v = (v \<in> set (map (\<lambda>k. Num (of_int k)) (dict_keys m)))"

text \<open>
  Two prefixes are incomparable when neither begins with the other; then no column name
  begins with both.
\<close>

definition incomparable :: "string \<Rightarrow> string \<Rightarrow> bool" where
  "incomparable p q = (\<not> startswith p q \<and> \<not> startswith q p)"

fun pairwise_incomparable :: "string list \<Rightarrow> bool" where
  "pairwise_incomparable [] = True"
| "pairwise_incomparable (p # ps) = (list_all (incomparable p) ps \<and> pairwise_incomparable ps)"

text \<open>Every code map the Recoder applies, exact-column maps first.\<close>

definition registry :: "(string \<times> code_map) list" where
  "registry = COLUMN_MAPS @ PREFIX_MAPS"

section \<open>The Aggregator: \<^verbatim>\<open>analysis.py\<close>\<close>

text \<open>
  The script works on the frame it loads and adds columns to it. A statement that
  raises is a function into \<open>py_error + _\<close>; \<^verbatim>\<open>df[col]\<close> raises \<open>KeyError\<close> when the frame
  has no column of that name, and \<^verbatim>\<open>df[name] = s\<close> replaces the column or appends it.
\<close>

datatype py_error = KeyError string | ValueError string | UnboundLocalError

definition get_col :: "frame \<Rightarrow> string \<Rightarrow> py_error + series" where
  "get_col df col = (case map_of df col of None \<Rightarrow> Inl (KeyError col) | Some s \<Rightarrow> Inr s)"

definition set_col :: "string \<Rightarrow> series \<Rightarrow> frame \<Rightarrow> frame" where
  "set_col col s df =
     (if col \<in> set (columns df) then update_col col (\<lambda>old. s) df else df @ [(col, s)])"

text \<open>\<^verbatim>\<open>df[[c1, ..., ck]]\<close>: the columns named, \<open>KeyError\<close> at the first that is absent.\<close>

fun select :: "frame \<Rightarrow> string list \<Rightarrow> py_error + series list" where
  "select df [] = Inr []"
| "select df (c # cs) =
     (case get_col df c of
        Inl e \<Rightarrow> Inl e
      | Inr s \<Rightarrow> (case select df cs of Inl e \<Rightarrow> Inl e | Inr ss \<Rightarrow> Inr (s # ss)))"

subsection \<open>The literacy score\<close>

definition LITERACY_COLS :: "string list" where
  "LITERACY_COLS = [''Q_Interest'', ''Q_Inflation'', ''Q_Bonds'', ''Q_Risk'', ''Q_Mortgage'']"

definition correct_answers :: "(string \<times> string) list" where
  "correct_answers = [
     (''Q_Interest'', ''More than $102''),
     (''Q_Inflation'', ''More than today''),
     (''Q_Bonds'', ''Fall''),
     (''Q_Risk'', ''True''),
     (''Q_Mortgage'', ''False'')]"

text \<open>
  \<^verbatim>\<open>(df[col] == answer).astype(int)\<close>: a cell equal to the string gives 1, every other cell
  (another string, a number, a missing cell) gives 0.
\<close>

definition eq_scalar :: "series \<Rightarrow> string \<Rightarrow> bool list" where
  "eq_scalar s a = map (\<lambda>v. v = Str a) s"

definition astype_int :: "bool list \<Rightarrow> series" where
  "astype_int bs = map (\<lambda>b. Num (if b then 1 else 0)) bs"

text \<open>
  \<^verbatim>\<open>for col in LITERACY_COLS: df[col + "_score"] = (df[col] == correct_answers[col]).astype(int)\<close>
\<close>

fun add_question_scores :: "string list \<Rightarrow> frame \<Rightarrow> py_error + frame" where
  "add_question_scores [] df = Inr df"
| "add_question_scores (col # cols) df =
     (case get_col df col of
        Inl e \<Rightarrow> Inl e
      | Inr s \<Rightarrow>
          (case dict_get correct_answers col of
             None \<Rightarrow> Inl (KeyError col)
           | Some a \<Rightarrow>
               add_question_scores cols (set_col (col @ ''_score'') (astype_int (eq_scalar s a)) df)))"

text \<open>
  \<^verbatim>\<open>.sum(axis=1)\<close> adds the numbers of each row; a missing cell counts for nothing. The
  score columns hold numbers only.
\<close>

definition num_of :: "cell \<Rightarrow> rat" where
  "num_of v = (case v of Num r \<Rightarrow> r | _ \<Rightarrow> 0)"

definition sum_axis1 :: "nat \<Rightarrow> series list \<Rightarrow> series" where
  "sum_axis1 len ss = map (\<lambda>i. Num (sum_list (map (\<lambda>s. num_of (s ! i)) ss))) [0..<len]"

definition add_literacy_score :: "frame \<Rightarrow> py_error + frame" where
  "add_literacy_score df =
     (case add_question_scores LITERACY_COLS df of
        Inl e \<Rightarrow> Inl e
      | Inr d \<Rightarrow>
          (case select d (map (\<lambda>c. c @ ''_score'') LITERACY_COLS) of
             Inl e \<Rightarrow> Inl e
           | Inr ss \<Rightarrow> Inr (set_col ''literacy_score'' (sum_axis1 (nrows d) ss) d)))"

subsection \<open>Age groups\<close>

text \<open>
  \<^verbatim>\<open>pd.to_numeric(s, errors="coerce")\<close>: a number stays, a string becomes the number
  it reads as, or missing when it reads as none. How pandas reads a string as a number
  is the parameter \<open>parse\<close>.
\<close>

definition to_numeric :: "(string \<Rightarrow> rat option) \<Rightarrow> series \<Rightarrow> series" where
  "to_numeric parse s =
     map (\<lambda>v. case v of
                 NaN \<Rightarrow> NaN
               | Num r \<Rightarrow> Num r
               | Str t \<Rightarrow> (case parse t of Some r \<Rightarrow> Num r | None \<Rightarrow> NaN)) s"

text \<open>
  \<^verbatim>\<open>pd.cut(s, bins=bins, labels=labels, right=True)\<close>: the label of the first interval
  \<open>(lo, hi]\<close> between two neighbouring edges that holds the number, missing when no
  interval holds it or the cell is missing.
\<close>

fun cut_value :: "rat list \<Rightarrow> string list \<Rightarrow> rat \<Rightarrow> cell" where
  "cut_value (lo # hi # edges) (l # ls) x =
     (if lo < x \<and> x \<le> hi then Str l else cut_value (hi # edges) ls x)"
| "cut_value edges ls x = NaN"

definition cut :: "rat list \<Rightarrow> string list \<Rightarrow> series \<Rightarrow> series" where
  "cut edges ls s = map (\<lambda>v. case v of Num x \<Rightarrow> cut_value edges ls x | _ \<Rightarrow> NaN) s"

definition bins :: "rat list" where
  "bins = [17, 24, 34, 44, 54, 64, 120]"

definition labels :: "string list" where
  "labels = [''18-24'', ''25-34'', ''35-44'', ''45-54'', ''55-64'', ''65+'']"

definition code_to_label :: "(cell \<times> string) list" where
  "code_to_label = [(Num 1, ''18-24''), (Num 2, ''25-34''), (Num 3, ''35-44''),
     (Num 4, ''45-54''), (Num 5, ''55-64''), (Num 6, ''65+'')]"

text \<open>
  \<^verbatim>\<open>if "Age" in df.columns: ... elif "Age_Category_Code" in df.columns: ...\<close>; with neither
  column the frame gets no column \<open>Age_group\<close>.
\<close>

definition add_age_group :: "(string \<Rightarrow> rat option) \<Rightarrow> frame \<Rightarrow> frame" where
  "add_age_group parse df =
     (case map_of df ''Age'' of
        Some age \<Rightarrow>
          (let age_numeric = to_numeric parse age;
               d1 = set_col ''Age_numeric'' age_numeric df
           in set_col ''Age_group'' (cut bins labels age_numeric) d1)
      | None \<Rightarrow>
          (case map_of df ''Age_Category_Code'' of
             Some code \<Rightarrow> set_col ''Age_group'' (fillna (series_map code_to_label code) code) df
           | None \<Rightarrow> df))"

subsection \<open>Grouped summaries\<close>

text \<open>
  One row of a summary table: the group key (one cell for each grouping column), the
  count \<open>n\<close>, the mean, the standard deviation and the standard error. A statistic that
  pandas gives as \<open>NaN\<close> is \<open>None\<close>. Arithmetic is that of the real numbers.
\<close>

record summary_row =
  row_key :: "cell list"
  row_n :: nat
  row_mean :: "real option"
  row_std :: "real option"
  row_se :: "real option"

text \<open>
  \<^verbatim>\<open>count\<close>, \<^verbatim>\<open>mean\<close> and \<^verbatim>\<open>std\<close> of the scores of one group that are not missing; the
  standard deviation is the sample one (divisor \<open>n - 1\<close>), undefined below two values.
\<close>

definition mean_of :: "rat list \<Rightarrow> real option" where
  "mean_of xs = (if xs = [] then None else Some (of_rat (sum_list xs) / real (length xs)))"

definition std_of :: "rat list \<Rightarrow> real option" where
  "std_of xs =
     (if length xs < 2 then None
      else let m = of_rat (sum_list xs) / real (length xs)
           in Some (sqrt ((\<Sum>x\<leftarrow>xs. (of_rat x - m)\<^sup>2) / real (length xs - 1))))"

text \<open>\<^verbatim>\<open>g["se"] = g["std"] / np.sqrt(g["n"].clip(lower=1))\<close>\<close>

definition se_of :: "real option \<Rightarrow> nat \<Rightarrow> real option" where
  "se_of sd cnt = map_option (\<lambda>s. s / sqrt (real (max cnt 1))) sd"

text \<open>
  The rows of the frame as pairs of group key and score cell. \<^verbatim>\<open>groupby\<close> leaves out a
  row whose key has a missing cell.
\<close>

definition keyed_rows :: "nat \<Rightarrow> series list \<Rightarrow> series \<Rightarrow> (cell list \<times> cell) list" where
  "keyed_rows len keys score =
     filter (\<lambda>(k, v). NaN \<notin> set k) (map (\<lambda>i. (map (\<lambda>s. s ! i) keys, score ! i)) [0..<len])"

definition group_values :: "(cell list \<times> cell) list \<Rightarrow> cell list \<Rightarrow> rat list" where
  "group_values rows k = concat (map (\<lambda>(k', v). case v of Num x \<Rightarrow> if k' = k then [x] else [] | _ \<Rightarrow> []) rows)"

definition summary_of :: "(cell list \<times> cell) list \<Rightarrow> cell list \<Rightarrow> summary_row" where
  "summary_of rows k =
     (let xs = group_values rows k
      in \<lparr>row_key = k, row_n = length xs, row_mean = mean_of xs, row_std = std_of xs,
          row_se = se_of (std_of xs) (length xs)\<rparr>)"

text \<open>
  The group keys of \<^verbatim>\<open>df.groupby(group_cols)\<close>: the columns named. A name that is no
  column raises \<open>KeyError\<close>, unless the list has as many names as the frame has rows:
  then pandas takes the list itself for one array of keys, one for each row.
\<close>

definition group_keys :: "frame \<Rightarrow> string list \<Rightarrow> py_error + series list" where
  "group_keys df group_cols =
     (if list_all (\<lambda>c. c \<in> set (columns df)) group_cols then select df group_cols
      else if length group_cols = nrows df then Inr [map Str group_cols]
      else select df group_cols)"

text \<open>
  \<^verbatim>\<open>summarize(group_cols)\<close>. The table has one row for each group key that some row of
  the frame has, and for each key of \<open>extra\<close>: the categories of a categorical grouper
  (as \<open>Age_group\<close> from \<^verbatim>\<open>pd.cut\<close>) that no row has, which pandas lists or not according
  to its version. The order of the rows of the table is not modelled.
\<close>

definition summarize :: "cell list list \<Rightarrow> frame \<Rightarrow> string list \<Rightarrow> py_error + summary_row list" where
  "summarize extra df group_cols =
     (case group_keys df group_cols of
        Inl e \<Rightarrow> Inl e
      | Inr keys \<Rightarrow>
          (case get_col df ''literacy_score'' of
             Inl e \<Rightarrow> Inl e
           | Inr score \<Rightarrow>
               (let rows = keyed_rows (nrows df) keys score
                in Inr (map (summary_of rows) (remdups (map fst rows @ extra))))))"

text \<open>
  The number of the five question columns whose cell in row \<open>i\<close> is the string of the
  answer key.
\<close>

definition n_correct :: "frame \<Rightarrow> nat \<Rightarrow> nat" where
  "n_correct df i =
     length (filter (\<lambda>(c, a). case map_of df c of Some s \<Rightarrow> s ! i = Str a | None \<Rightarrow> False)
       correct_answers)"

text \<open>The cell of \<open>Age_group\<close> that the numeric path computes from a cell of \<open>Age\<close>.\<close>

definition age_group_of :: "(string \<Rightarrow> rat option) \<Rightarrow> cell \<Rightarrow> cell" where
  "age_group_of parse v = hd (cut bins labels (to_numeric parse [v]))"

text \<open>
  A literacy score cell: a number from 0 to 5. The key of row \<open>i\<close> under the grouping
  columns \<open>keys\<close>; the rows of the group of key \<open>k\<close> (a key with a missing cell has none);
  the rows whose key has no missing cell; the scores of a list of rows.
\<close>

definition is_score :: "cell \<Rightarrow> bool" where
  "is_score v = (case v of Num x \<Rightarrow> 0 \<le> x \<and> x \<le> 5 | _ \<Rightarrow> False)"

definition row_key_at :: "series list \<Rightarrow> nat \<Rightarrow> cell list" where
  "row_key_at keys i = map (\<lambda>s. s ! i) keys"

definition members :: "nat \<Rightarrow> series list \<Rightarrow> cell list \<Rightarrow> nat list" where
  "members len keys k = filter (\<lambda>i. NaN \<notin> set k \<and> row_key_at keys i = k) [0..<len]"

definition keyed :: "nat \<Rightarrow> series list \<Rightarrow> nat list" where
  "keyed len keys = filter (\<lambda>i. NaN \<notin> set (row_key_at keys i)) [0..<len]"

definition scores_at :: "series \<Rightarrow> nat list \<Rightarrow> rat list" where
  "scores_at score is = map (\<lambda>i. num_of (score ! i)) is"

text \<open>The summary row of the group of key \<open>k\<close>, from the scores of its rows.\<close>

definition group_row :: "nat \<Rightarrow> series list \<Rightarrow> series \<Rightarrow> cell list \<Rightarrow> summary_row" where
  "group_row len keys score k =
     (let xs = scores_at score (members len keys k)
      in \<lparr>row_key = k, row_n = length xs, row_mean = mean_of xs, row_std = std_of xs,
          row_se = se_of (std_of xs) (length xs)\<rparr>)"

subsection \<open>The run of the script\<close>

text \<open>
  What the script gives out: a summary table printed, a chart saved under a file name,
  a message printed. The labels and the order of the rows of a printed table are not
  modelled, nor what is printed of the frame before the tables. A chart call is taken
  to raise only when the frame has no column of the name it is given.
\<close>

datatype table_id = ByAge | ByGender | ByAgeGender | ByRegion | ByDivision

datatype artefact = Printed table_id "summary_row list" | Saved string | Message string

datatype outcome = Completed "artefact list" | Aborted py_error "artefact list"

text \<open>
  A step of the script works on the frame and gives outputs or raises. The steps run in
  order; a step that raises ends the run, and what was given out before stays.
\<close>

type_synonym step = "frame \<Rightarrow> py_error + artefact list"

fun run_steps :: "step list \<Rightarrow> frame \<Rightarrow> artefact list \<Rightarrow> outcome" where
  "run_steps [] df out = Completed out"
| "run_steps (st # rest) df out =
     (case st df of Inl e \<Rightarrow> Aborted e out | Inr new \<Rightarrow> run_steps rest df (out @ new))"

text \<open>
  Section 5: the three tables by age group, gender and both are computed, then printed.
  The parameter \<open>extra\<close> gives, for each grouping, the group keys that pandas lists
  although no row has them.
\<close>

definition tables :: "(string list \<Rightarrow> cell list list) \<Rightarrow> step" where
  "tables extra df =
     (case summarize (extra [''Age_group'']) df [''Age_group''] of
        Inl e \<Rightarrow> Inl e
      | Inr age_tbl \<Rightarrow>
          (case summarize (extra [''Gender'']) df [''Gender''] of
             Inl e \<Rightarrow> Inl e
           | Inr gender_tbl \<Rightarrow>
               (case summarize (extra [''Age_group'', ''Gender'']) df [''Age_group'', ''Gender''] of
                  Inl e \<Rightarrow> Inl e
                | Inr age_gender_tbl \<Rightarrow>
                    Inr [Printed ByAge age_tbl, Printed ByGender gender_tbl,
                         Printed ByAgeGender age_gender_tbl])))"

text \<open>Plots 1 to 3, drawn from the three tables.\<close>

definition age_gender_plots :: step where
  "age_gender_plots df =
     Inr [Saved ''literacy_by_age.png'', Saved ''literacy_by_gender.png'',
          Saved ''literacy_by_age_gender.png'']"

text \<open>
  Plots 4 and 5: \<^verbatim>\<open>if "Census_Region" in df.columns: ... else: print(...)\<close>, and the same
  for the division. The message printed is \<^verbatim>\<open>Column 'Census_Region' not found in dataset.\<close>,
  with the name of the column between apostrophes.
\<close>

definition not_found :: "string \<Rightarrow> artefact" where
  "not_found col = Message (''Column '' @ [CHR 0x27] @ col @ [CHR 0x27] @ '' not found in dataset.'')"

definition geo_report :: "(string list \<Rightarrow> cell list list) \<Rightarrow> string \<Rightarrow> table_id \<Rightarrow> string \<Rightarrow> step" where
  "geo_report extra col tid file df =
     (if col \<in> set (columns df)
      then (case summarize (extra [col]) df [col] of
              Inl e \<Rightarrow> Inl e
            | Inr tbl \<Rightarrow> Inr [Printed tid tbl, Saved file])
      else Inr [not_found col])"

text \<open>
  The two box plots: \<^verbatim>\<open>sns.boxplot(x=col, y="literacy_score", data=df, ...)\<close> and
  \<^verbatim>\<open>plt.savefig(file)\<close>, with no test that the column is there. seaborn raises
  \<open>ValueError\<close> for a name that is no column of the data, and fails with
  \<open>UnboundLocalError\<close> when the column has no value in any row.
\<close>

definition boxplot :: "string \<Rightarrow> string \<Rightarrow> step" where
  "boxplot col file df =
     (case map_of df col of
        None \<Rightarrow> Inl (ValueError col)
      | Some x \<Rightarrow>
          (case map_of df ''literacy_score'' of
             None \<Rightarrow> Inl (ValueError ''literacy_score'')
           | Some y \<Rightarrow> if list_all (\<lambda>v. v = NaN) x then Inl UnboundLocalError else Inr [Saved file]))"

definition report_steps :: "(string list \<Rightarrow> cell list list) \<Rightarrow> step list" where
  "report_steps extra =
     [tables extra, age_gender_plots,
      geo_report extra ''Census_Region'' ByRegion ''literacy_by_region.png'',
      geo_report extra ''Census_Division'' ByDivision ''literacy_by_division.png'']"

definition boxplot_steps :: "step list" where
  "boxplot_steps =
     [boxplot ''Census_Region'' ''literacy_boxplot_region.png'',
      boxplot ''Census_Division'' ''literacy_boxplot_division.png'']"

text \<open>The whole script on the frame it loads.\<close>

definition run :: "(string \<Rightarrow> rat option) \<Rightarrow> (string list \<Rightarrow> cell list list) \<Rightarrow> frame \<Rightarrow> outcome" where
  "run parse extra df0 =
     (case add_literacy_score df0 of
        Inl e \<Rightarrow> Aborted e []
      | Inr d \<Rightarrow> run_steps (report_steps extra @ boxplot_steps) (add_age_group parse d) [])"

text \<open>
  The columns a run needs: the five questions and one of the two age columns, and the
  gender.
\<close>

definition has_questions_and_age :: "frame \<Rightarrow> bool" where
  "has_questions_and_age df =
     (list_all (\<lambda>c. c \<in> set (columns df)) LITERACY_COLS \<and>
      (''Age'' \<in> set (columns df) \<or> ''Age_Category_Code'' \<in> set (columns df)))"

definition has_required :: "frame \<Rightarrow> bool" where
  "has_required df = (has_questions_and_age df \<and> ''Gender'' \<in> set (columns df))"

text \<open>Frames of one respondent: one without the region, one without the gender.\<close>

definition example_questions :: frame where
  "example_questions =
     [(''Q_Interest'', [Str ''More than $102'']), (''Q_Inflation'', [Str ''More than today'']),
      (''Q_Bonds'', [Str ''Rise'']), (''Q_Risk'', [NaN]), (''Q_Mortgage'', [Str ''False'']),
      (''Age'', [Num 70])]"

definition example_no_region :: frame where
  "example_no_region = example_questions @ [(''Gender'', [Str ''Female'']), (''Census_Division'', [Num 9])]"

definition example_no_gender :: frame where
  "example_no_gender = example_questions @ [(''Census_Region'', [Num 4]), (''Census_Division'', [Num 9])]"

section \<open>Properties of the safe mapping\<close>

lemma apply_map_safe_cells: "apply_map_safe s m = map (recode_cell m) s"
  by (induction s) (simp_all add: apply_map_safe_def fillna_def series_map_def recode_cell_def
      split: option.splits)

subsection \<open>Python's \<open>str\<close> is injective on the integers\<close>

lemma digit_val_digit_char: "d < 10 \<Longrightarrow> digit_val (digit_char d) = d"
  by (simp add: digit_val_def digit_char_def)

lemma parse_nat_str_nat: "parse_nat (str_nat n) = n"
proof (induction n rule: str_nat.induct)
  case (1 n)
  show ?case
  proof (cases "n < 10")
    case True
    then show ?thesis
      by (subst str_nat.simps) (simp add: parse_nat_def digit_val_digit_char)
  next
    case False
    with 1 have ih: "parse_nat (str_nat (n div 10)) = n div 10" by simp
    have "parse_nat (str_nat n) = 10 * parse_nat (str_nat (n div 10)) + digit_val (digit_char (n mod 10))"
      using False by (subst str_nat.simps) (simp add: parse_nat_def)
    also have "\<dots> = 10 * (n div 10) + n mod 10"
      by (simp add: ih digit_val_digit_char)
    finally show ?thesis by simp
  qed
qed

lemma str_nat_inj: "str_nat a = str_nat b \<Longrightarrow> a = b"
  by (metis parse_nat_str_nat)

lemma digit_char_not_minus: "d < 10 \<Longrightarrow> digit_char d \<noteq> CHR ''-''"
proof
  assume d: "d < 10" and "digit_char d = CHR ''-''"
  then have "of_char (digit_char d) = (of_char (CHR ''-'') :: nat)" by simp
  with d show False by (simp add: digit_char_def)
qed

lemma str_nat_hd: "\<exists>d t. d < 10 \<and> str_nat n = digit_char d # t"
proof (induction n rule: str_nat.induct)
  case (1 n)
  show ?case
  proof (cases "n < 10")
    case True
    then show ?thesis by (subst str_nat.simps) auto
  next
    case False
    with 1 obtain d t where "d < 10" "str_nat (n div 10) = digit_char d # t" by auto
    then show ?thesis using False by (subst str_nat.simps) auto
  qed
qed

lemma str_nat_not_minus: "str_nat n \<noteq> CHR ''-'' # t"
proof
  assume a: "str_nat n = CHR ''-'' # t"
  obtain d u where d: "d < 10" and "str_nat n = digit_char d # u"
    using str_nat_hd [of n] by blast
  with a have "digit_char d = CHR ''-''" by simp
  then show False using digit_char_not_minus [OF d] by blast
qed

lemma str_int_inj: "str_int a = str_int b \<Longrightarrow> a = b"
proof -
  assume eq: "str_int a = str_int b"
  consider "a < 0" "b < 0" | "a < 0" "\<not> b < 0" | "\<not> a < 0" "b < 0" | "\<not> a < 0" "\<not> b < 0"
    by blast
  then show "a = b"
  proof cases
    case 1
    with eq have "str_nat (nat (- a)) = str_nat (nat (- b))" by (simp add: str_int_def)
    then have "nat (- a) = nat (- b)" by (rule str_nat_inj)
    with 1 show ?thesis by simp
  next
    case 2
    with eq have "str_nat (nat b) = CHR ''-'' # str_nat (nat (- a))" by (simp add: str_int_def)
    then show ?thesis using str_nat_not_minus by blast
  next
    case 3
    with eq have "str_nat (nat a) = CHR ''-'' # str_nat (nat (- b))" by (simp add: str_int_def)
    then show ?thesis using str_nat_not_minus by blast
  next
    case 4
    with eq have "str_nat (nat a) = str_nat (nat b)" by (simp add: str_int_def)
    then have "nat a = nat b" by (rule str_nat_inj)
    with 4 show ?thesis by simp
  qed
qed

subsection \<open>Looking a cell up in the mixed dictionary\<close>

lemma map_of_inj_key:
  "inj f \<Longrightarrow> map_of (map (\<lambda>(k, v). (f k, v)) xs) (f x) = map_of xs x"
  by (induction xs) (auto simp: inj_def)

lemma map_of_other_key:
  "\<forall>k. f k \<noteq> y \<Longrightarrow> map_of (map (\<lambda>(k, v). (f k, v)) xs) y = None"
  by (induction xs) auto

lemma dict_get_mixed:
  "dict_get (mixed m) v =
     (case map_of (map (\<lambda>(k, l). (Str (str_int k), l)) (rev m)) v of
        Some l \<Rightarrow> Some l
      | None \<Rightarrow> map_of (map (\<lambda>(k, l). (Num (of_int k), l)) (rev m)) v)"
  by (simp add: dict_get_def mixed_def rev_map map_add_def split: option.splits)

lemma inj_Num_of_int: "inj (\<lambda>k::int. Num (of_int k))"
  by (simp add: inj_def)

lemma inj_Str_str_int: "inj (\<lambda>k::int. Str (str_int k))"
  using str_int_inj by (auto simp: inj_def)

lemma dict_get_mixed_num: "dict_get (mixed m) (Num (of_int k)) = dict_get m k"
proof -
  have "map_of (map (\<lambda>(k, l). (Str (str_int k), l)) (rev m)) (Num (of_int k)) = None"
    by (rule map_of_other_key) simp
  moreover have "map_of (map (\<lambda>(k, l). (Num (of_int k), l)) (rev m)) (Num (of_int k)) = map_of (rev m) k"
    by (rule map_of_inj_key [OF inj_Num_of_int])
  ultimately have "dict_get (mixed m) (Num (of_int k)) = map_of (rev m) k"
    by (simp add: dict_get_mixed)
  then show ?thesis by (simp add: dict_get_def)
qed

lemma dict_get_mixed_str: "dict_get (mixed m) (Str (str_int k)) = dict_get m k"
proof -
  have "map_of (map (\<lambda>(k, l). (Num (of_int k), l)) (rev m)) (Str (str_int k)) = None"
    by (rule map_of_other_key) simp
  moreover have "map_of (map (\<lambda>(k, l). (Str (str_int k), l)) (rev m)) (Str (str_int k)) = map_of (rev m) k"
    by (rule map_of_inj_key [OF inj_Str_str_int])
  ultimately have "dict_get (mixed m) (Str (str_int k)) = map_of (rev m) k"
    by (simp add: dict_get_mixed split: option.splits)
  then show ?thesis by (simp add: dict_get_def)
qed

lemma dict_get_mixed_none:
  assumes "\<forall>k \<in> set (dict_keys m). v \<noteq> Num (of_int k) \<and> v \<noteq> Str (str_int k)"
  shows "dict_get (mixed m) v = None"
proof -
  have "v \<notin> fst ` set (rev (mixed m))"
    using assms by (auto simp: mixed_def dict_keys_def)
  then show ?thesis
    unfolding dict_get_def by (simp add: map_of_eq_None_iff)
qed

lemma dict_get_mixed_label:
  "dict_get (mixed m) v = Some l \<Longrightarrow> l \<in> snd ` set m"
proof -
  assume "dict_get (mixed m) v = Some l"
  then have "(v, l) \<in> set (rev (mixed m))"
    unfolding dict_get_def by (rule map_of_SomeD)
  then show ?thesis by (force simp: mixed_def)
qed

lemma dict_get_mixed_NaN: "dict_get (mixed m) NaN = None"
  by (rule dict_get_mixed_none) simp

section \<open>The safe lookup (claim C5)\<close>

text \<open>
  Claim C5, as amended. The safe mapping keeps the length of the series (no cell is
  dropped) and, cell by cell: a cell that denotes a key \<open>k\<close> of the code map, as the
  number \<open>k\<close> or as the string \<open>str(k)\<close>, becomes the label of \<open>k\<close>; a cell that denotes no
  key of the map is returned unchanged, so a present value without an entry stays the
  value it was and never becomes missing. The string form is taken of the keys of the
  map, not of the cell.
\<close>

theorem apply_map_safe_lookup:
  "length (apply_map_safe s m) = length s \<and>
   (\<forall>i < length s.
      (\<forall>k l. denotes (s ! i) k \<and> dict_get m k = Some l \<longrightarrow> apply_map_safe s m ! i = Str l) \<and>
      ((\<forall>k \<in> set (dict_keys m). \<not> denotes (s ! i) k) \<longrightarrow> apply_map_safe s m ! i = s ! i))"
proof -
  have a: "recode_cell m v = Str l" if "denotes v k" "dict_get m k = Some l" for v k l
    using that by (auto simp: denotes_def recode_cell_def dict_get_mixed_num dict_get_mixed_str)
  have b: "recode_cell m v = v" if "\<forall>k \<in> set (dict_keys m). \<not> denotes v k" for v
    using that dict_get_mixed_none [of m v] by (simp add: denotes_def recode_cell_def)
  show ?thesis
    unfolding apply_map_safe_cells using a b by auto
qed

text \<open>
  The theorem at the series \<open>[7, "98"]\<close> and the map \<open>YES_NO\<close>: the string \<open>"98"\<close> denotes
  the key 98 and becomes its label, the number 7 denotes no key and stays.
\<close>

theorem apply_map_safe_lookup_witness:
  "denotes (Str ''98'') 98 \<and> dict_get YES_NO 98 = Some ''Don't know'' \<and>
   apply_map_safe [Num 7, Str ''98''] YES_NO ! 1 = Str ''Don't know'' \<and>
   list_all (\<lambda>k. \<not> denotes (Num 7) k) (dict_keys YES_NO) \<and>
   apply_map_safe [Num 7, Str ''98''] YES_NO ! 0 = Num 7"
proof -
  have d: "denotes (Str ''98'') 98" by code_simp
  have g: "dict_get YES_NO 98 = Some ''Don't know''" by code_simp
  have n: "list_all (\<lambda>k. \<not> denotes (Num 7) k) (dict_keys YES_NO)" by code_simp
  then have n': "\<forall>k \<in> set (dict_keys YES_NO). \<not> denotes ([Num 7, Str ''98''] ! 0) k"
    by (simp add: list_all_iff)
  note t = apply_map_safe_lookup [of "[Num 7, Str ''98'']" YES_NO]
  from t have t1: "\<forall>k l. denotes ([Num 7, Str ''98''] ! 1) k \<and> dict_get YES_NO k = Some l \<longrightarrow>
      apply_map_safe [Num 7, Str ''98''] YES_NO ! 1 = Str l"
    by simp
  from t have t0: "(\<forall>k \<in> set (dict_keys YES_NO). \<not> denotes ([Num 7, Str ''98''] ! 0) k) \<longrightarrow>
      apply_map_safe [Num 7, Str ''98''] YES_NO ! 0 = [Num 7, Str ''98''] ! 0"
    by simp
  from t1 d g have r1: "apply_map_safe [Num 7, Str ''98''] YES_NO ! 1 = Str ''Don't know''"
    by simp
  from t0 n' have r0: "apply_map_safe [Num 7, Str ''98''] YES_NO ! 0 = Num 7"
    by simp
  from d g n r0 r1 show ?thesis by blast
qed

text \<open>
  Claim C5 as stated fails at the string cell \<open>"98"\<close> under \<open>YES_NO\<close>. The cell is no
  key of the map, whose keys are the integers 1, 2, 98 and 99, and the string form of a
  string is the string itself, so neither the cell nor its string form is a key and the
  claim has it returned unchanged. The script answers \<open>"Don't know"\<close>.
\<close>

theorem string_code_counterexample:
  "\<not> is_key YES_NO (Str ''98'') \<and> apply_map_safe [Str ''98''] YES_NO = [Str ''Don't know'']"
  by code_simp

subsection \<open>Missing cells stay missing, present cells stay present\<close>

lemma recode_cell_NaN_iff: "(recode_cell m v = NaN) = (v = NaN)"
  by (cases v) (simp_all add: recode_cell_def dict_get_mixed_NaN split: option.splits)

lemma isna_apply_map_safe: "isna (apply_map_safe s m) = isna s"
  by (simp add: apply_map_safe_cells isna_def recode_cell_NaN_iff)

lemma update_col_absent: "col \<notin> set (columns df) \<Longrightarrow> update_col col f df = df"
  by (induction df) (auto simp: update_col_def columns_def)

lemma columns_update_col: "columns (update_col col f df) = columns df"
  by (induction df) (auto simp: update_col_def columns_def)

lemma frame_isna_update_col:
  "(\<And>s. isna (f s) = isna s) \<Longrightarrow> frame_isna (update_col col f df) = frame_isna df"
  by (induction df) (auto simp: update_col_def frame_isna_def)

lemma frame_isna_apply_column_maps: "frame_isna (apply_column_maps reg df) = frame_isna df"
proof (induction reg arbitrary: df)
  case Nil
  show ?case by (simp add: apply_column_maps_def)
next
  case (Cons e reg)
  obtain col m where e: "e = (col, m)" by (cases e)
  let ?d = "if col \<in> set (columns df) then update_col col (\<lambda>s. apply_map_safe s m) df else df"
  have "apply_column_maps (e # reg) df = apply_column_maps reg ?d"
    by (simp add: apply_column_maps_def e)
  moreover have "frame_isna ?d = frame_isna df"
    by (simp add: frame_isna_update_col isna_apply_map_safe)
  ultimately show ?case using Cons.IH [of ?d] by simp
qed

lemma frame_isna_fold_update:
  "(\<And>s. isna (f s) = isna s) \<Longrightarrow>
   frame_isna (fold (\<lambda>col d'. update_col col f d') cs d) = frame_isna d"
  by (induction cs arbitrary: d) (simp_all add: frame_isna_update_col)

lemma frame_isna_apply_prefix_maps: "frame_isna (apply_prefix_maps reg df) = frame_isna df"
proof (induction reg arbitrary: df)
  case Nil
  show ?case by (simp add: apply_prefix_maps_def)
next
  case (Cons e reg)
  obtain p m where e: "e = (p, m)" by (cases e)
  let ?d = "fold (\<lambda>col d'. update_col col (\<lambda>s. apply_map_safe s m) d')
              (filter (\<lambda>c. startswith c p) (columns df)) df"
  have "apply_prefix_maps (e # reg) df = apply_prefix_maps reg ?d"
    by (simp add: apply_prefix_maps_def e)
  moreover have "frame_isna ?d = frame_isna df"
    by (rule frame_isna_fold_update) (rule isna_apply_map_safe)
  ultimately show ?case using Cons.IH [of ?d] by simp
qed

lemma replace_cell_E5_numeric_NaN: "(replace_cell E5_numeric v = NaN) = (v = NaN)"
  by (cases v) (simp_all add: replace_cell_def E5_numeric_def dict_get_def)

lemma replace_cell_E5_textual_NaN: "(replace_cell E5_textual v = NaN) = (v = NaN)"
  by (cases v) (simp_all add: replace_cell_def E5_textual_def dict_get_def)

lemma replace_cell_A3a_NaN: "(replace_cell A3a_sentinels v = NaN) = (v = NaN)"
  by (cases v) (simp_all add: replace_cell_def A3a_sentinels_def dict_get_def)

lemma isna_E5_replace: "isna (E5_replace s) = isna s"
  by (simp add: E5_replace_def series_replace_def isna_def
      replace_cell_E5_numeric_NaN replace_cell_E5_textual_NaN)

lemma isna_A3a_replace: "isna (A3a_replace s) = isna s"
  by (simp add: A3a_replace_def series_replace_def isna_def replace_cell_A3a_NaN)

lemma frame_isna_special_cases: "frame_isna (special_cases df) = frame_isna df"
  by (simp add: special_cases_def Let_def frame_isna_update_col isna_E5_replace isna_A3a_replace)

text \<open>
  Claim C9. The safe mapping keeps missingness exactly: the cells of a series that are
  missing after \<open>apply_map_safe\<close> are those that were missing before it (a missing cell is
  no key of the mixed dictionary and is filled back from the series, a label is a
  string and never missing), and so for every column of a frame through the whole
  mapping pass, special cases included. Missing is pandas' notion (\<open>isna\<close>): a cell that
  was absent in the file or that blank normalisation made \<open>NaN\<close>.
\<close>

theorem recode_preserves_missingness:
  "isna (apply_map_safe s m) = isna s \<and> frame_isna (recode df) = frame_isna df"
  by (simp add: isna_apply_map_safe recode_def frame_isna_special_cases
      frame_isna_apply_prefix_maps frame_isna_apply_column_maps)

section \<open>The mapping pass, cell by cell\<close>

lemma update_col_map:
  "update_col col (map g) df = map (\<lambda>(c, s). (c, map (if c = col then g else id) s)) df"
  by (induction df) (auto simp: update_col_def)

lemma apply_column_maps_cells:
  "apply_column_maps reg df =
     map (\<lambda>(c, s). (c, map (fold recode_cell (map snd (filter (\<lambda>(col, m). col = c) reg))) s)) df"
proof (induction reg arbitrary: df)
  case Nil
  show ?case by (simp add: apply_column_maps_def case_prod_unfold)
next
  case (Cons e reg)
  obtain col m where e: "e = (col, m)" by (cases e)
  let ?d = "update_col col (map (recode_cell m)) df"
  have step: "apply_column_maps (e # reg) df = apply_column_maps reg ?d"
    using update_col_absent [of col df "map (recode_cell m)"]
    by (simp add: apply_column_maps_def e apply_map_safe_cells)
  show ?case
    unfolding step Cons.IH update_col_map
    by (auto simp: e)
qed

lemma fold_update_col_cells:
  "fold (\<lambda>col d'. update_col col (map g) d') cs d =
     map (\<lambda>(c, s). (c, map (g ^^ count_list cs c) s)) d"
proof (induction cs arbitrary: d)
  case Nil
  show ?case by (simp add: case_prod_unfold)
next
  case (Cons a cs)
  have "fold (\<lambda>col d'. update_col col (map g) d') (a # cs) d =
        fold (\<lambda>col d'. update_col col (map g) d') cs (update_col a (map g) d)"
    by simp
  also have "\<dots> = map (\<lambda>(c, s). (c, map (g ^^ count_list cs c) s)) (update_col a (map g) d)"
    by (rule Cons.IH)
  also have "\<dots> = map (\<lambda>(c, s). (c, map (g ^^ count_list (a # cs) c) s)) d"
    by (induction d) (auto simp: update_col_def funpow_swap1)
  finally show ?case .
qed

lemma idem_funpow: "(\<And>x. g (g x) = g x) \<Longrightarrow> 0 < n \<Longrightarrow> (g ^^ n) x = g x"
proof (induction n)
  case 0
  then show ?case by simp
next
  case (Suc n)
  show ?case
  proof (cases "n = 0")
    case True
    then show ?thesis by simp
  next
    case False
    with Suc have "(g ^^ n) x = g x" by simp
    then show ?thesis using Suc.prems(1) by simp
  qed
qed

lemma recode_cell_idem: "label_stable m \<Longrightarrow> recode_cell m (recode_cell m v) = recode_cell m v"
proof (cases "dict_get (mixed m) v")
  case None
  then show ?thesis by (simp add: recode_cell_def)
next
  case (Some l)
  assume st: "label_stable m"
  from Some have "l \<in> snd ` set m" by (rule dict_get_mixed_label)
  then obtain k where "(k, l) \<in> set m" by force
  with st have "case dict_get (mixed m) (Str l) of None \<Rightarrow> True | Some l' \<Rightarrow> l' = l"
    by (auto simp: label_stable_def list_all_iff)
  then show ?thesis using Some
    by (simp add: recode_cell_def split: option.splits)
qed

lemma apply_prefix_maps_cells:
  "list_all (\<lambda>(p, m). label_stable m) reg \<Longrightarrow>
   apply_prefix_maps reg df =
     map (\<lambda>(c, s). (c, map (fold recode_cell (map snd (filter (\<lambda>(p, m). startswith c p) reg))) s)) df"
proof (induction reg arbitrary: df)
  case Nil
  show ?case by (simp add: apply_prefix_maps_def case_prod_unfold)
next
  case (Cons e reg)
  obtain p m where e: "e = (p, m)" by (cases e)
  from Cons.prems have st: "label_stable m" and rest: "list_all (\<lambda>(p, m). label_stable m) reg"
    by (simp_all add: e)
  let ?cs = "filter (\<lambda>c. startswith c p) (columns df)"
  let ?d = "fold (\<lambda>col d'. update_col col (map (recode_cell m)) d') ?cs df"
  have step: "apply_prefix_maps (e # reg) df = apply_prefix_maps reg ?d"
    by (simp add: apply_prefix_maps_def e apply_map_safe_cells)
  have pw: "(recode_cell m ^^ count_list ?cs c) v = (if startswith c p then recode_cell m v else v)"
    if "c \<in> set (columns df)" for c v
  proof (cases "startswith c p")
    case True
    with that have "c \<in> set ?cs" by simp
    then have "count_list ?cs c \<noteq> 0" by (metis count_list_0_iff)
    then have "0 < count_list ?cs c" by simp
    then show ?thesis using True idem_funpow [of "recode_cell m"] recode_cell_idem [OF st]
      by simp
  next
    case False
    then have "c \<notin> set ?cs" by simp
    then have "count_list ?cs c = 0" by (metis count_list_0_iff)
    then show ?thesis using False by simp
  qed
  have d: "?d = map (\<lambda>(c, s). (c, map (\<lambda>v. if startswith c p then recode_cell m v else v) s)) df"
    unfolding fold_update_col_cells
  proof (rule map_cong [OF refl])
    fix x assume x: "x \<in> set df"
    obtain c s where cs: "x = (c, s)" by (cases x)
    with x have "c \<in> set (columns df)" by (force simp: columns_def)
    then have "recode_cell m ^^ count_list ?cs c = (\<lambda>v. if startswith c p then recode_cell m v else v)"
      using pw by blast
    then show "(case x of (c, s) \<Rightarrow> (c, map (recode_cell m ^^ count_list ?cs c) s)) =
        (case x of (c, s) \<Rightarrow> (c, map (\<lambda>v. if startswith c p then recode_cell m v else v) s))"
      by (simp add: cs)
  qed
  show ?case
    unfolding step Cons.IH [OF rest] d
    by (auto simp: e)
qed

lemma special_cases_cells:
  "special_cases df = map (\<lambda>(c, s). (c, map (special_cell c) s)) df"
proof -
  have a: "(if col \<in> set (columns d) then update_col col g d else d) = update_col col g d"
    for col g and d :: frame
    using update_col_absent [of col d g] by simp
  have "special_cases df = update_col ''A3a'' A3a_replace (update_col ''E5'' E5_replace df)"
    unfolding special_cases_def Let_def a ..
  also have "\<dots> = map (\<lambda>(c, s). (c, map (special_cell c) s)) df"
    by (induction df)
      (auto simp: update_col_def special_cell_def Let_def E5_replace_def A3a_replace_def
        series_replace_def)
  finally show ?thesis .
qed

lemma prefix_maps_stable: "list_all (\<lambda>(p, m). label_stable m) PREFIX_MAPS"
  by code_simp

lemma column_maps_stable: "list_all (\<lambda>(c, m). label_stable m) COLUMN_MAPS"
  by code_simp

lemma recode_cells: "recode df = map (\<lambda>(c, s). (c, map (recode_value c) s)) df"
  unfolding recode_def apply_column_maps_cells apply_prefix_maps_cells [OF prefix_maps_stable]
    special_cases_cells
  by (auto simp: recode_value_def governing_def)

subsection \<open>At most one code map governs a column\<close>

lemma startswith_both:
  assumes "startswith c p" "startswith c q"
  shows "startswith p q \<or> startswith q p"
proof (cases "length p \<le> length q")
  case True
  have "take (length p) q = take (length p) (take (length q) c)"
    using assms(2) by (simp add: startswith_def)
  also have "\<dots> = take (length p) c" using True by (simp add: min_def)
  also have "\<dots> = p" using assms(1) by (simp add: startswith_def)
  finally show ?thesis by (simp add: startswith_def)
next
  case False
  have "take (length q) p = take (length q) (take (length p) c)"
    using assms(1) by (simp add: startswith_def)
  also have "\<dots> = take (length q) c" using False by (simp add: min_def)
  also have "\<dots> = q" using assms(2) by (simp add: startswith_def)
  finally show ?thesis by (simp add: startswith_def)
qed

lemma at_most_one_prefix:
  "pairwise_incomparable (map fst reg) \<Longrightarrow>
   length (filter (\<lambda>(p, m). startswith c p) reg) \<le> 1"
proof (induction reg)
  case Nil
  show ?case by simp
next
  case (Cons e reg)
  obtain p m where e: "e = (p, m)" by (cases e)
  from Cons.prems have inc: "list_all (incomparable p) (map fst reg)"
    and rest: "pairwise_incomparable (map fst reg)"
    by (simp_all add: e)
  show ?case
  proof (cases "startswith c p")
    case False
    then show ?thesis using Cons.IH [OF rest] by (simp add: e)
  next
    case True
    have "filter (\<lambda>(q, m). startswith c q) reg = []"
    proof (rule ccontr)
      assume "filter (\<lambda>(q, m). startswith c q) reg \<noteq> []"
      then obtain q m' where q: "(q, m') \<in> set reg" "startswith c q"
        by (auto simp: filter_empty_conv)
      from q(1) inc have "incomparable p q"
        by (force simp: list_all_iff)
      with startswith_both [OF True q(2)] show False
        by (simp add: incomparable_def)
    qed
    then show ?thesis by (simp add: e)
  qed
qed

lemma prefixes_incomparable: "pairwise_incomparable (map fst PREFIX_MAPS)"
  by code_simp

lemma exact_columns_governing:
  "list_all (\<lambda>c. case governing c of [m] \<Rightarrow> label_stable m \<and> c \<noteq> ''E5'' \<and> c \<noteq> ''A3a'' | _ \<Rightarrow> False)
     (map fst COLUMN_MAPS)"
  by code_simp

lemma prefixes_not_special:
  "list_all (\<lambda>(p, m). \<not> startswith ''E5'' p \<and> \<not> startswith ''A3a'' p) PREFIX_MAPS"
  by code_simp

lemma governing_cases:
  "governing c = [] \<or> (\<exists>m. governing c = [m] \<and> label_stable m \<and> c \<noteq> ''E5'' \<and> c \<noteq> ''A3a'')"
proof (cases "c \<in> set (map fst COLUMN_MAPS)")
  case True
  with exact_columns_governing
  have "case governing c of [m] \<Rightarrow> label_stable m \<and> c \<noteq> ''E5'' \<and> c \<noteq> ''A3a'' | _ \<Rightarrow> False"
    unfolding list_all_iff by blast
  then show ?thesis by (auto split: list.splits)
next
  case False
  then have "filter (\<lambda>(col, m). col = c) COLUMN_MAPS = []"
    by (force simp: filter_empty_conv)
  then have g: "governing c = map snd (filter (\<lambda>(p, m). startswith c p) PREFIX_MAPS)"
    by (simp add: governing_def)
  let ?ms = "filter (\<lambda>(p, m). startswith c p) PREFIX_MAPS"
  have "length ?ms \<le> 1"
    by (rule at_most_one_prefix [OF prefixes_incomparable])
  then consider "?ms = []" | e where "?ms = [e]"
    by (cases ?ms) auto
  then show ?thesis
  proof cases
    case 1
    then show ?thesis by (simp add: g)
  next
    case 2
    obtain p m where e: "e = (p, m)" by (cases e)
    have "(p, m) \<in> set ?ms" by (simp add: 2 e)
    then have mem: "(p, m) \<in> set PREFIX_MAPS" and sw: "startswith c p" by auto
    from mem prefix_maps_stable have "label_stable m"
      by (force simp: list_all_iff)
    moreover from mem prefixes_not_special
    have "\<not> startswith ''E5'' p \<and> \<not> startswith ''A3a'' p"
      by (force simp: list_all_iff)
    with sw have "c \<noteq> ''E5'' \<and> c \<noteq> ''A3a''" by blast
    ultimately show ?thesis by (simp add: g 2 e)
  qed
qed

lemma special_cell_idem: "special_cell c (special_cell c v) = special_cell c v"
  by (cases v)
    (auto simp: special_cell_def Let_def replace_cell_def dict_get_def E5_numeric_def
      E5_textual_def A3a_sentinels_def)

lemma recode_value_idem: "recode_value c (recode_value c v) = recode_value c v"
  using governing_cases [of c]
proof
  assume "governing c = []"
  then show ?thesis by (simp add: recode_value_def special_cell_idem)
next
  assume "\<exists>m. governing c = [m] \<and> label_stable m \<and> c \<noteq> ''E5'' \<and> c \<noteq> ''A3a''"
  then obtain m where "governing c = [m]" "label_stable m" "c \<noteq> ''E5''" "c \<noteq> ''A3a''"
    by blast
  then show ?thesis
    by (simp add: recode_value_def special_cell_def recode_cell_idem)
qed

text \<open>
  Claim C7. The mapping pass is idempotent: on every frame, recoding the recoded frame
  gives the recoded frame. A label produced by a map is a string; on the second run it
  either is no key of the mixed dictionary and stays, or it is the string form of a key
  whose label it is (every code map of the registry is label-stable, as \<open>"1"\<close> to \<open>"10"\<close> in
  the scale maps), and no column is governed by two maps.
\<close>

theorem recode_idempotent:
  "recode (recode df) = recode df \<and> list_all (\<lambda>(c, m). label_stable m) registry"
proof -
  have st: "list_all (\<lambda>(c, m). label_stable m) registry"
    using column_maps_stable prefix_maps_stable by (simp add: registry_def)
  have "recode (recode df) = map (\<lambda>(c, s). (c, map (recode_value c) s)) (recode df)"
    by (rule recode_cells)
  also have "\<dots> = map (\<lambda>(c, s). (c, map (\<lambda>v. recode_value c (recode_value c v)) s)) df"
    by (subst recode_cells) (simp add: case_prod_unfold comp_def)
  also have "\<dots> = map (\<lambda>(c, s). (c, map (recode_value c) s)) df"
    by (simp add: recode_value_idem)
  also have "\<dots> = recode df"
    by (rule recode_cells [symmetric])
  finally have "recode (recode df) = recode df" .
  with st show ?thesis by simp
qed

section \<open>Sentinel codes (claim C2)\<close>

lemma recode_cell_code:
  "recode_cell m (Num (of_int k)) = (case dict_get m k of Some l \<Rightarrow> Str l | None \<Rightarrow> Num (of_int k))"
  "recode_cell m (Str (str_int k)) = (case dict_get m k of Some l \<Rightarrow> Str l | None \<Rightarrow> Str (str_int k))"
  by (simp_all add: recode_cell_def dict_get_mixed_num dict_get_mixed_str)

lemma str_int_98: "str_int 98 = ''98''" by code_simp
lemma str_int_99: "str_int 99 = ''99''" by code_simp

lemma exact_columns_declare:
  "list_all (\<lambda>(c, m).
      governing c = [m] \<and>
      dict_get m 98 =
        (if c \<in> set [''A3'', ''A5'', ''A6'', ''A7'', ''A11'', ''AM21'', ''AM22'', ''A9''] then None
         else Some ''Don't know'') \<and>
      dict_get m 99 = (if c = ''A3'' then None else Some ''Prefer not to say''))
    COLUMN_MAPS"
  by code_simp

lemma prefix_maps_declare:
  "list_all (\<lambda>(p, m). dict_get m 98 = Some ''Don't know'' \<and> dict_get m 99 = Some ''Prefer not to say'')
     PREFIX_MAPS"
  by code_simp

lemma exceptions_exact:
  "set [''A3'', ''A5'', ''A6'', ''A7'', ''A11'', ''AM21'', ''AM22'', ''A9''] \<subseteq> set (map fst COLUMN_MAPS)"
  by code_simp

lemma governed_iff:
  "(governing c \<noteq> []) =
     (c \<in> set (map fst COLUMN_MAPS) \<or> (\<exists>p \<in> set (map fst PREFIX_MAPS). startswith c p))"
  by (force simp: governing_def filter_empty_conv)

lemma governed_declares:
  assumes "governing c \<noteq> []"
  shows "\<exists>m. governing c = [m] \<and> c \<noteq> ''E5'' \<and> c \<noteq> ''A3a'' \<and>
     dict_get m 98 =
        (if c \<in> {''A3'', ''A5'', ''A6'', ''A7'', ''A11'', ''AM21'', ''AM22'', ''A9''} then None
         else Some ''Don't know'') \<and>
     dict_get m 99 = (if c = ''A3'' then None else Some ''Prefer not to say'')"
proof -
  from assms governing_cases [of c] obtain m where
    g: "governing c = [m]" and ns: "c \<noteq> ''E5''" "c \<noteq> ''A3a''"
    by blast
  show ?thesis
  proof (cases "c \<in> set (map fst COLUMN_MAPS)")
    case True
    then obtain m' where "(c, m') \<in> set COLUMN_MAPS" by auto
    with exact_columns_declare have
      "governing c = [m'] \<and>
       dict_get m' 98 =
        (if c \<in> set [''A3'', ''A5'', ''A6'', ''A7'', ''A11'', ''AM21'', ''AM22'', ''A9''] then None
         else Some ''Don't know'') \<and>
       dict_get m' 99 = (if c = ''A3'' then None else Some ''Prefer not to say'')"
      unfolding list_all_iff by blast
    with ns show ?thesis by auto
  next
    case False
    then have "filter (\<lambda>(col, m). col = c) COLUMN_MAPS = []"
      by (force simp: filter_empty_conv)
    with g have "map snd (filter (\<lambda>(p, m). startswith c p) PREFIX_MAPS) = [m]"
      by (simp add: governing_def)
    then have "m \<in> set (map snd (filter (\<lambda>(p, m). startswith c p) PREFIX_MAPS))"
      by simp
    then obtain p where "(p, m) \<in> set PREFIX_MAPS" by auto
    with prefix_maps_declare have d: "dict_get m 98 = Some ''Don't know''"
      "dict_get m 99 = Some ''Prefer not to say''"
      unfolding list_all_iff by blast+
    from False exceptions_exact
    have "c \<notin> {''A3'', ''A5'', ''A6'', ''A7'', ''A11'', ''AM21'', ''AM22'', ''A9''}"
      by auto
    moreover from this have "c \<noteq> ''A3''" by simp
    ultimately show ?thesis using g ns d by simp
  qed
qed

text \<open>
  Claim C2, as amended. The mapping pass acts on a frame cell by cell, through
  \<open>recode_value\<close>. A column is governed by a code map when it has one of the twenty names
  of \<open>COLUMN_MAPS\<close> or begins with one of the eight prefixes of \<open>PREFIX_MAPS\<close>. In a governed
  column a cell holding the code 98, as a number or as a string, becomes \<open>"Don't know"\<close>,
  except in the columns A3, A5, A6, A7, A11, AM21, AM22 and A9, whose maps do not
  declare 98: there it stays as it is. A cell holding 99 becomes \<open>"Prefer not to say"\<close>,
  except in the column A3, whose map does not declare 99: there it stays as it is. A
  sentinel code never becomes a substantive label. In the column E5 the codes -98 and
  -99, and in the column A3a the code 999, become the sentinel labels.
\<close>

theorem sentinel_codes:
  "recode df = map (\<lambda>(c, s). (c, map (recode_value c) s)) df \<and>
   (governing c \<noteq> []) =
     (c \<in> set (map fst COLUMN_MAPS) \<or> (\<exists>p \<in> set (map fst PREFIX_MAPS). startswith c p)) \<and>
   (governing c \<noteq> [] \<longrightarrow>
      recode_value c (Num 98) =
        (if c \<in> {''A3'', ''A5'', ''A6'', ''A7'', ''A11'', ''AM21'', ''AM22'', ''A9''} then Num 98
         else Str ''Don't know'') \<and>
      recode_value c (Str ''98'') =
        (if c \<in> {''A3'', ''A5'', ''A6'', ''A7'', ''A11'', ''AM21'', ''AM22'', ''A9''} then Str ''98''
         else Str ''Don't know'') \<and>
      recode_value c (Num 99) = (if c = ''A3'' then Num 99 else Str ''Prefer not to say'') \<and>
      recode_value c (Str ''99'') = (if c = ''A3'' then Str ''99'' else Str ''Prefer not to say'')) \<and>
   recode_value ''E5'' (Num (- 98)) = Str ''Don't know'' \<and>
   recode_value ''E5'' (Str ''-98'') = Str ''Don't know'' \<and>
   recode_value ''E5'' (Num (- 99)) = Str ''Prefer not to say'' \<and>
   recode_value ''E5'' (Str ''-99'') = Str ''Prefer not to say'' \<and>
   recode_value ''A3a'' (Num 999) = Str ''Prefer not to say'' \<and>
   recode_value ''A3a'' (Str ''999'') = Str ''Prefer not to say''"
proof -
  have gov: "recode_value c (Num 98) =
        (if c \<in> {''A3'', ''A5'', ''A6'', ''A7'', ''A11'', ''AM21'', ''AM22'', ''A9''} then Num 98
         else Str ''Don't know'') \<and>
      recode_value c (Str ''98'') =
        (if c \<in> {''A3'', ''A5'', ''A6'', ''A7'', ''A11'', ''AM21'', ''AM22'', ''A9''} then Str ''98''
         else Str ''Don't know'') \<and>
      recode_value c (Num 99) = (if c = ''A3'' then Num 99 else Str ''Prefer not to say'') \<and>
      recode_value c (Str ''99'') = (if c = ''A3'' then Str ''99'' else Str ''Prefer not to say'')"
    if "governing c \<noteq> []"
  proof -
    from governed_declares [OF that] obtain m where
      g: "governing c = [m]" and ns: "c \<noteq> ''E5''" "c \<noteq> ''A3a''"
      and d98: "dict_get m 98 =
        (if c \<in> {''A3'', ''A5'', ''A6'', ''A7'', ''A11'', ''AM21'', ''AM22'', ''A9''} then None
         else Some ''Don't know'')"
      and d99: "dict_get m 99 = (if c = ''A3'' then None else Some ''Prefer not to say'')"
      by blast
    have rv: "recode_value c v = recode_cell m v" for v
      by (simp add: recode_value_def g special_cell_def ns)
    have n98: "recode_cell m (Num 98) = (case dict_get m 98 of Some l \<Rightarrow> Str l | None \<Rightarrow> Num 98)"
      and s98: "recode_cell m (Str ''98'') = (case dict_get m 98 of Some l \<Rightarrow> Str l | None \<Rightarrow> Str ''98'')"
      and n99: "recode_cell m (Num 99) = (case dict_get m 99 of Some l \<Rightarrow> Str l | None \<Rightarrow> Num 99)"
      and s99: "recode_cell m (Str ''99'') = (case dict_get m 99 of Some l \<Rightarrow> Str l | None \<Rightarrow> Str ''99'')"
      using recode_cell_code [of m 98] recode_cell_code [of m 99]
      by (simp_all add: str_int_98 str_int_99 split: option.splits)
    show ?thesis
      unfolding rv n98 s98 n99 s99 d98 d99 by simp
  qed
  have E5: "governing ''E5'' = []" by code_simp
  have A3a: "governing ''A3a'' = []" by code_simp
  have sp: "recode_value ''E5'' (Num (- 98)) = Str ''Don't know''"
    "recode_value ''E5'' (Str ''-98'') = Str ''Don't know''"
    "recode_value ''E5'' (Num (- 99)) = Str ''Prefer not to say''"
    "recode_value ''E5'' (Str ''-99'') = Str ''Prefer not to say''"
    "recode_value ''A3a'' (Num 999) = Str ''Prefer not to say''"
    "recode_value ''A3a'' (Str ''999'') = Str ''Prefer not to say''"
    by (simp_all add: recode_value_def E5 A3a special_cell_def Let_def replace_cell_def
        dict_get_def E5_numeric_def E5_textual_def A3a_sentinels_def)
  show ?thesis
    using recode_cells [of df] governed_iff [of c] gov sp by blast
qed

text \<open>
  The theorem at four governed columns: the education column A5 (99 becomes the label,
  98 stays), the question column M6 and the column K_3 of the prefix \<open>K_\<close> (both codes
  become the labels), and the gender column A3 (99 stays).
\<close>

theorem sentinel_codes_witness:
  "governing ''A5'' \<noteq> [] \<and> recode_value ''A5'' (Num 99) = Str ''Prefer not to say'' \<and>
   recode_value ''A5'' (Num 98) = Num 98 \<and>
   governing ''M6'' \<noteq> [] \<and> recode_value ''M6'' (Num 98) = Str ''Don't know'' \<and>
   recode_value ''M6'' (Str ''99'') = Str ''Prefer not to say'' \<and>
   governing ''K_3'' \<noteq> [] \<and> recode_value ''K_3'' (Str ''98'') = Str ''Don't know'' \<and>
   governing ''A3'' \<noteq> [] \<and> recode_value ''A3'' (Num 99) = Num 99"
proof -
  have g: "governing ''A5'' \<noteq> []" "governing ''M6'' \<noteq> []" "governing ''K_3'' \<noteq> []"
    "governing ''A3'' \<noteq> []" by code_simp+
  from sentinel_codes [of "[]" "''A5''"] g(1)
  have a: "recode_value ''A5'' (Num 99) = Str ''Prefer not to say''"
    "recode_value ''A5'' (Num 98) = Num 98" by simp_all
  from sentinel_codes [of "[]" "''M6''"] g(2)
  have b: "recode_value ''M6'' (Num 98) = Str ''Don't know''"
    "recode_value ''M6'' (Str ''99'') = Str ''Prefer not to say''" by simp_all
  from sentinel_codes [of "[]" "''K_3''"] g(3)
  have c: "recode_value ''K_3'' (Str ''98'') = Str ''Don't know''" by simp
  from sentinel_codes [of "[]" "''A3''"] g(4)
  have d: "recode_value ''A3'' (Num 99) = Num 99" by simp
  from g a b c d show ?thesis by blast
qed

text \<open>
  Claim C2 as stated fails at the gender column A3, whose map declares the codes 1 and
  2 only: the Recoder leaves the codes 98 and 99 in place.
\<close>

theorem gender_sentinel_counterexample:
  "governing ''A3'' = [A3_gender] \<and>
   clean [(''A3'', [Num 98, Num 99, Num 1])] = [(''Gender'', [Num 98, Num 99, Str ''Male''])]"
  by code_simp

section \<open>Column pruning (claim C8)\<close>

lemma rename_columns_series: "map snd (rename_columns d df) = map snd df"
  by (simp add: rename_columns_def Let_def case_prod_unfold comp_def)

lemma clean_columns_not_all_missing:
  assumes "(c, s) \<in> set (clean df)"
  shows "\<exists>v \<in> set s. v \<noteq> NaN"
proof -
  let ?d = "dropna_columns (recode (rename_columns pre_rename (normalize_columns (blank_normalize df))))"
  from assms have "s \<in> set (map snd (clean df))" by force
  then have "s \<in> set (map snd ?d)"
    by (simp only: clean_def rename_columns_series)
  then obtain c' where "(c', s) \<in> set ?d" by auto
  then have "\<not> list_all (\<lambda>v. v = NaN) s"
    by (auto simp: dropna_columns_def)
  then show ?thesis by (auto simp: list_all_iff)
qed

text \<open>
  Claim C8 at a frame whose only column is G23 (the agreement scale from 1 to 7) with
  the codes 2 and 3 in its two rows: the map sends both codes to the empty label, the
  empty string is not missing for \<^verbatim>\<open>dropna\<close>, and the cleaned frame keeps the column
  G23 although each of its cells is empty. (The columns that do get dropped are those
  whose cells are all missing, see \<open>clean_columns_not_all_missing\<close>.)
\<close>

theorem empty_label_column_kept:
  "clean [(''G23'', [Num 2, Num 3])] = [(''G23'', [Str '''', Str ''''])]"
  by code_simp

section \<open>The literacy score (claim C1)\<close>

lemma map_of_update_col:
  "map_of (update_col col f df) c = (if c = col then map_option f (map_of df c) else map_of df c)"
  by (induction df) (auto simp: update_col_def)

lemma map_of_set_col:
  "map_of (set_col col s df) c = (if c = col then Some s else map_of df c)"
proof (cases "col \<in> set (columns df)")
  case True
  then have "map_of df col \<noteq> None"
    by (simp add: columns_def map_of_eq_None_iff)
  then show ?thesis using True
    by (auto simp: set_col_def map_of_update_col)
next
  case False
  then have "map_of df col = None"
    by (simp add: columns_def map_of_eq_None_iff)
  then show ?thesis using False
    by (auto simp: set_col_def map_add_def split: option.splits)
qed

lemma get_col_set_col:
  "get_col (set_col col s df) c = (if c = col then Inr s else get_col df c)"
  by (simp add: get_col_def map_of_set_col)

lemma wf_set_col:
  assumes "wf_frame df" "df \<noteq> []" "length s = nrows df"
  shows "wf_frame (set_col col s df) \<and> nrows (set_col col s df) = nrows df \<and> set_col col s df \<noteq> []"
proof -
  obtain c0 s0 rest where df: "df = (c0, s0) # rest" using assms(2) by (cases df) auto
  have n: "nrows (set_col col s df) = nrows df"
    using assms(3) by (auto simp: df set_col_def update_col_def nrows_def)
  have cols: "columns (update_col col (\<lambda>old. s) df) = columns df"
    by (induction df) (auto simp: update_col_def columns_def)
  have d: "distinct (columns (set_col col s df))"
    using assms(1) by (auto simp: set_col_def cols wf_frame_def) (simp add: columns_def)
  have l: "list_all (\<lambda>(c, s'). length s' = nrows df) (set_col col s df)"
    using assms(1,3)
    by (auto simp: set_col_def update_col_def wf_frame_def list_all_iff split: if_splits)
  have ne: "set_col col s df \<noteq> []"
    by (simp add: df set_col_def update_col_def)
  from n d l ne show ?thesis
    by (simp add: wf_frame_def)
qed

lemma wf_frame_length: "wf_frame df \<Longrightarrow> map_of df c = Some s \<Longrightarrow> length s = nrows df"
  by (auto simp: wf_frame_def list_all_iff dest: map_of_SomeD)

lemma length_astype_int_eq_scalar [simp]: "length (astype_int (eq_scalar s a)) = length s"
  by (simp add: astype_int_def eq_scalar_def)

lemma nth_astype_int_eq_scalar:
  "i < length s \<Longrightarrow> astype_int (eq_scalar s a) ! i = Num (if s ! i = Str a then 1 else 0)"
  by (simp add: astype_int_def eq_scalar_def)

lemma question_scores:
  assumes wf: "wf_frame df"
    and cols: "map_of df ''Q_Interest'' = Some s1" "map_of df ''Q_Inflation'' = Some s2"
      "map_of df ''Q_Bonds'' = Some s3" "map_of df ''Q_Risk'' = Some s4"
      "map_of df ''Q_Mortgage'' = Some s5"
  shows "\<exists>d. add_question_scores LITERACY_COLS df = Inr d \<and> wf_frame d \<and> nrows d = nrows df \<and>
     d \<noteq> [] \<and>
     select d (map (\<lambda>c. c @ ''_score'') LITERACY_COLS) =
       Inr [astype_int (eq_scalar s1 ''More than $102''), astype_int (eq_scalar s2 ''More than today''),
          astype_int (eq_scalar s3 ''Fall''), astype_int (eq_scalar s4 ''True''),
          astype_int (eq_scalar s5 ''False'')]"
proof -
  let ?a1 = "astype_int (eq_scalar s1 ''More than $102'')"
  let ?a2 = "astype_int (eq_scalar s2 ''More than today'')"
  let ?a3 = "astype_int (eq_scalar s3 ''Fall'')"
  let ?a4 = "astype_int (eq_scalar s4 ''True'')"
  let ?a5 = "astype_int (eq_scalar s5 ''False'')"
  let ?d1 = "set_col ''Q_Interest_score'' ?a1 df"
  let ?d2 = "set_col ''Q_Inflation_score'' ?a2 ?d1"
  let ?d3 = "set_col ''Q_Bonds_score'' ?a3 ?d2"
  let ?d4 = "set_col ''Q_Risk_score'' ?a4 ?d3"
  let ?d5 = "set_col ''Q_Mortgage_score'' ?a5 ?d4"
  from cols(1) have ne: "df \<noteq> []" by auto
  note len = cols [THEN wf_frame_length [OF wf]]
  have w1: "wf_frame ?d1 \<and> nrows ?d1 = nrows df \<and> ?d1 \<noteq> []"
    using wf_set_col [OF wf ne, of ?a1] len by simp
  have w2: "wf_frame ?d2 \<and> nrows ?d2 = nrows df \<and> ?d2 \<noteq> []"
    using wf_set_col [of ?d1 ?a2] w1 len by simp
  have w3: "wf_frame ?d3 \<and> nrows ?d3 = nrows df \<and> ?d3 \<noteq> []"
    using wf_set_col [of ?d2 ?a3] w2 len by simp
  have w4: "wf_frame ?d4 \<and> nrows ?d4 = nrows df \<and> ?d4 \<noteq> []"
    using wf_set_col [of ?d3 ?a4] w3 len by simp
  have w5: "wf_frame ?d5 \<and> nrows ?d5 = nrows df \<and> ?d5 \<noteq> []"
    using wf_set_col [of ?d4 ?a5] w4 len by simp
  have run: "add_question_scores LITERACY_COLS df = Inr ?d5"
    using cols
    by (simp add: LITERACY_COLS_def get_col_def map_of_set_col correct_answers_def dict_get_def)
  have sel: "select ?d5 (map (\<lambda>c. c @ ''_score'') LITERACY_COLS) = Inr [?a1, ?a2, ?a3, ?a4, ?a5]"
    by (simp add: LITERACY_COLS_def get_col_def map_of_set_col)
  from run w5 sel show ?thesis by blast
qed

lemma n_correct_cols:
  assumes "map_of df ''Q_Interest'' = Some s1" "map_of df ''Q_Inflation'' = Some s2"
      "map_of df ''Q_Bonds'' = Some s3" "map_of df ''Q_Risk'' = Some s4"
      "map_of df ''Q_Mortgage'' = Some s5"
  shows "n_correct df i =
     (if s1 ! i = Str ''More than $102'' then 1 else 0) +
     (if s2 ! i = Str ''More than today'' then 1 else 0) +
     (if s3 ! i = Str ''Fall'' then 1 else 0) +
     (if s4 ! i = Str ''True'' then 1 else 0) +
     (if s5 ! i = Str ''False'' then 1 else 0)"
  using assms by (simp add: n_correct_def correct_answers_def)

lemma n_correct_le: "n_correct df i \<le> 5"
proof -
  have "n_correct df i \<le> length correct_answers"
    unfolding n_correct_def by (rule length_filter_le)
  then show ?thesis by (simp add: correct_answers_def)
qed

text \<open>
  Claim C1. On a frame that has the five question columns, the script computes the
  column \<open>literacy_score\<close> without raising; it has one cell for each respondent row, and
  the cell of row \<open>i\<close> is the number of the five question columns whose cell in that row
  is exactly the string of the answer key, one of 0, 1, 2, 3, 4, 5. A cell that is not
  that string (another label such as \<open>"Don't know"\<close>, a number, a missing cell) counts for
  0, and the score is a number, never missing.
\<close>

theorem literacy_score_counts:
  assumes "wf_frame df" and "set LITERACY_COLS \<subseteq> set (columns df)"
  shows "\<exists>d score. add_literacy_score df = Inr d \<and>
     get_col d ''literacy_score'' = Inr score \<and> length score = nrows df \<and>
     (\<forall>i < nrows df. score ! i = Num (of_nat (n_correct df i)) \<and> n_correct df i \<in> {0, 1, 2, 3, 4, 5})"
proof -
  have ex: "\<exists>s. map_of df c = Some s" if "c \<in> set LITERACY_COLS" for c
  proof -
    from that assms(2) have "c \<in> fst ` set df" by (auto simp: columns_def)
    then show ?thesis by (cases "map_of df c") (auto simp: map_of_eq_None_iff)
  qed
  obtain s1 s2 s3 s4 s5 where cols: "map_of df ''Q_Interest'' = Some s1"
      "map_of df ''Q_Inflation'' = Some s2" "map_of df ''Q_Bonds'' = Some s3"
      "map_of df ''Q_Risk'' = Some s4" "map_of df ''Q_Mortgage'' = Some s5"
    using ex [of "''Q_Interest''"] ex [of "''Q_Inflation''"] ex [of "''Q_Bonds''"]
      ex [of "''Q_Risk''"] ex [of "''Q_Mortgage''"]
    by (auto simp: LITERACY_COLS_def)
  note len = cols [THEN wf_frame_length [OF assms(1)]]
  let ?ss = "[astype_int (eq_scalar s1 ''More than $102''), astype_int (eq_scalar s2 ''More than today''),
          astype_int (eq_scalar s3 ''Fall''), astype_int (eq_scalar s4 ''True''),
          astype_int (eq_scalar s5 ''False'')]"
  from question_scores [OF assms(1) cols] obtain d where
    d: "add_question_scores LITERACY_COLS df = Inr d" "nrows d = nrows df"
      "select d (map (\<lambda>c. c @ ''_score'') LITERACY_COLS) = Inr ?ss"
    by blast
  let ?score = "sum_axis1 (nrows df) ?ss"
  have r: "add_literacy_score df = Inr (set_col ''literacy_score'' ?score d)"
    by (simp add: add_literacy_score_def d)
  have g: "get_col (set_col ''literacy_score'' ?score d) ''literacy_score'' = Inr ?score"
    by (simp add: get_col_set_col)
  have l: "length ?score = nrows df" by (simp add: sum_axis1_def)
  have v: "?score ! i = Num (of_nat (n_correct df i))" if "i < nrows df" for i
    using that len
    by (simp add: sum_axis1_def nth_astype_int_eq_scalar num_of_def n_correct_cols [OF cols])
  have b: "n_correct df i \<in> {0, 1, 2, 3, 4, 5}" for i
    using n_correct_le [of df i] by auto
  from r g l v b show ?thesis by blast
qed

text \<open>
  The theorem at a frame of two respondents: the first answers the five questions
  correctly and scores 5; the second answers \<open>"Don't know"\<close>, leaves one cell missing,
  holds the number 1 for one question and is correct on two, and scores 2.
\<close>

theorem literacy_score_counts_witness:
  "wf_frame [(''Q_Interest'', [Str ''More than $102'', Str ''Don't know'']),
             (''Q_Inflation'', [Str ''More than today'', NaN]),
             (''Q_Bonds'', [Str ''Fall'', Str ''Fall'']),
             (''Q_Risk'', [Str ''True'', Num 1]),
             (''Q_Mortgage'', [Str ''False'', Str ''False''])] \<and>
   (\<exists>d score.
      add_literacy_score [(''Q_Interest'', [Str ''More than $102'', Str ''Don't know'']),
             (''Q_Inflation'', [Str ''More than today'', NaN]),
             (''Q_Bonds'', [Str ''Fall'', Str ''Fall'']),
             (''Q_Risk'', [Str ''True'', Num 1]),
             (''Q_Mortgage'', [Str ''False'', Str ''False''])] = Inr d \<and>
      get_col d ''literacy_score'' = Inr score \<and> length score = 2 \<and>
      score ! 0 = Num 5 \<and> score ! 1 = Num 2)"
proof -
  let ?df = "[(''Q_Interest'', [Str ''More than $102'', Str ''Don't know'']),
             (''Q_Inflation'', [Str ''More than today'', NaN]),
             (''Q_Bonds'', [Str ''Fall'', Str ''Fall'']),
             (''Q_Risk'', [Str ''True'', Num 1]),
             (''Q_Mortgage'', [Str ''False'', Str ''False''])]"
  have wf: "wf_frame ?df" by code_simp
  have cols: "set LITERACY_COLS \<subseteq> set (columns ?df)" by code_simp
  have n: "nrows ?df = 2" by code_simp
  have c0: "n_correct ?df 0 = 5" by code_simp
  have c1: "n_correct ?df 1 = 2" by code_simp
  from literacy_score_counts [OF wf cols] obtain d score where
    r: "add_literacy_score ?df = Inr d" "get_col d ''literacy_score'' = Inr score"
      "length score = nrows ?df"
      "\<forall>i < nrows ?df. score ! i = Num (of_nat (n_correct ?df i)) \<and> n_correct ?df i \<in> {0, 1, 2, 3, 4, 5}"
    by blast
  have "0 < nrows ?df" "1 < nrows ?df" unfolding n by simp_all
  with r(4) have s0: "score ! 0 = Num (of_nat (n_correct ?df 0))"
    and s1: "score ! 1 = Num (of_nat (n_correct ?df 1))"
    by blast+
  have v0: "score ! 0 = Num 5" using s0 unfolding c0 by simp
  have v1: "score ! 1 = Num 2" using s1 unfolding c1 by simp
  have l: "length score = 2" using r(3) unfolding n .
  from wf r(1,2) l v0 v1 show ?thesis by blast
qed

section \<open>Age groups (claim C4)\<close>

lemma cut_value_bins:
  "cut_value bins labels x =
     (if 17 < x \<and> x \<le> 24 then Str ''18-24''
      else if 24 < x \<and> x \<le> 34 then Str ''25-34''
      else if 34 < x \<and> x \<le> 44 then Str ''35-44''
      else if 44 < x \<and> x \<le> 54 then Str ''45-54''
      else if 54 < x \<and> x \<le> 64 then Str ''55-64''
      else if 64 < x \<and> x \<le> 120 then Str ''65+''
      else NaN)"
  by (simp add: bins_def labels_def)

lemma age_group_of_simps:
  "age_group_of parse NaN = NaN"
  "age_group_of parse (Num x) = cut_value bins labels x"
  "age_group_of parse (Str t) = (case parse t of Some x \<Rightarrow> cut_value bins labels x | None \<Rightarrow> NaN)"
  by (simp_all add: age_group_of_def cut_def to_numeric_def split: option.splits)

lemma cut_to_numeric_cells:
  "cut bins labels (to_numeric parse s) = map (age_group_of parse) s"
  by (induction s) (simp_all add: age_group_of_def cut_def to_numeric_def)

text \<open>
  Claim C4, as amended. With a column \<open>Age\<close>, the column \<open>Age_group\<close> is computed cell by
  cell by one function of the age cell. A numeric age falls in the interval \<open>(17, 24]\<close>,
  \<open>(24, 34]\<close>, \<open>(34, 44]\<close>, \<open>(44, 54]\<close>, \<open>(54, 64]\<close> or \<open>(64, 120]\<close> that holds it and gets its
  label, so an age on an edge falls in the lower bucket (24 in \<open>"18-24"\<close>, 25 in
  \<open>"25-34"\<close>); an age of at most 17 or above 120 gets a missing bucket, which for a
  whole-number age says that the age is outside \<open>[18, 120]\<close>; a missing cell and a string
  that does not read as a number get a missing bucket.
\<close>

theorem age_group_buckets:
  "(map_of df ''Age'' = Some age \<longrightarrow>
      get_col (add_age_group parse df) ''Age_group'' = Inr (map (age_group_of parse) age)) \<and>
   (17 < x \<and> x \<le> 24 \<longrightarrow> age_group_of parse (Num x) = Str ''18-24'') \<and>
   (24 < x \<and> x \<le> 34 \<longrightarrow> age_group_of parse (Num x) = Str ''25-34'') \<and>
   (34 < x \<and> x \<le> 44 \<longrightarrow> age_group_of parse (Num x) = Str ''35-44'') \<and>
   (44 < x \<and> x \<le> 54 \<longrightarrow> age_group_of parse (Num x) = Str ''45-54'') \<and>
   (54 < x \<and> x \<le> 64 \<longrightarrow> age_group_of parse (Num x) = Str ''55-64'') \<and>
   (64 < x \<and> x \<le> 120 \<longrightarrow> age_group_of parse (Num x) = Str ''65+'') \<and>
   (x \<le> 17 \<or> 120 < x \<longrightarrow> age_group_of parse (Num x) = NaN) \<and>
   ((age_group_of parse (Num (of_int k)) = NaN) = (k < 18 \<or> 120 < k)) \<and>
   age_group_of parse NaN = NaN \<and>
   (parse t = None \<longrightarrow> age_group_of parse (Str t) = NaN) \<and>
   (parse t = Some x \<longrightarrow> age_group_of parse (Str t) = age_group_of parse (Num x))"
proof -
  have a: "get_col (add_age_group parse df) ''Age_group'' = Inr (map (age_group_of parse) age)"
    if "map_of df ''Age'' = Some age"
    using that by (simp add: add_age_group_def Let_def get_col_set_col cut_to_numeric_cells)
  have i: "(age_group_of parse (Num (of_int k)) = NaN) = (k < 18 \<or> 120 < k)"
  proof -
    have "((17::rat) < of_int k) = (17 < k)" "((of_int k :: rat) \<le> 120) = (k \<le> 120)"
      by linarith+
    then show ?thesis
      by (auto simp: age_group_of_simps cut_value_bins)
  qed
  show ?thesis
    using a i by (auto simp: age_group_of_simps cut_value_bins)
qed

text \<open>
  The theorem at the ages 24, 25, 17, 121 and 70, and at the string
  \<open>"Prefer not to say"\<close>, which reads as no number.
\<close>

theorem age_group_buckets_witness:
  "age_group_of (\<lambda>t. None) (Num 24) = Str ''18-24'' \<and> age_group_of (\<lambda>t. None) (Num 25) = Str ''25-34'' \<and>
   age_group_of (\<lambda>t. None) (Num 17) = NaN \<and> age_group_of (\<lambda>t. None) (Num 121) = NaN \<and>
   age_group_of (\<lambda>t. None) (Str ''Prefer not to say'') = NaN \<and>
   get_col (add_age_group (\<lambda>t. None) [(''Age'', [Num 70, Num 24, Str ''Prefer not to say''])]) ''Age_group''
     = Inr [Str ''65+'', Str ''18-24'', NaN]"
proof -
  note t = age_group_buckets [of "[(''Age'', [Num 70, Num 24, Str ''Prefer not to say''])]"
      "[Num 70, Num 24, Str ''Prefer not to say'']" "\<lambda>t. None" _ _ "''Prefer not to say''"]
  have b24: "age_group_of (\<lambda>t. None) (Num 24) = Str ''18-24''" using t [of 24 0] by simp
  have b25: "age_group_of (\<lambda>t. None) (Num 25) = Str ''25-34''" using t [of 25 0] by simp
  have b70: "age_group_of (\<lambda>t. None) (Num 70) = Str ''65+''" using t [of 70 0] by simp
  have b17: "age_group_of (\<lambda>t. None) (Num 17) = NaN" using t [of 17 0] by simp
  have b121: "age_group_of (\<lambda>t. None) (Num 121) = NaN" using t [of 121 0] by simp
  have bs: "age_group_of (\<lambda>t. None) (Str ''Prefer not to say'') = NaN" using t [of 0 0] by simp
  have "get_col (add_age_group (\<lambda>t. None) [(''Age'', [Num 70, Num 24, Str ''Prefer not to say''])]) ''Age_group''
     = Inr (map (age_group_of (\<lambda>t. None)) [Num 70, Num 24, Str ''Prefer not to say''])"
    using t [of 0 0] by simp
  with b24 b25 b70 b17 b121 bs show ?thesis by simp
qed

text \<open>
  Claim C4 as stated fails at the age 17.5: it is outside \<open>[18, 120]\<close>, and the script
  puts it in the bucket \<open>"18-24"\<close>, whose interval is \<open>(17, 24]\<close>.
\<close>

theorem fractional_age_counterexample:
  "(35 / 2 :: rat) < 18 \<and>
   get_col (add_age_group (\<lambda>t. None) [(''Age'', [Num (35 / 2)])]) ''Age_group'' = Inr [Str ''18-24'']"
  by (simp add: add_age_group_def Let_def get_col_set_col cut_def to_numeric_def bins_def labels_def)

section \<open>Grouped summaries (claims C6 and C10)\<close>

lemma group_values_indices:
  assumes "\<forall>i \<in> set is. is_score (score ! i)"
  shows "group_values (filter (\<lambda>(k, v). NaN \<notin> set k) (map (\<lambda>i. (row_key_at keys i, score ! i)) is)) k =
     scores_at score (filter (\<lambda>i. NaN \<notin> set k \<and> row_key_at keys i = k) is)"
  using assms
proof (induction "is")
  case Nil
  show ?case by (simp add: group_values_def scores_at_def)
next
  case (Cons i "is")
  from Cons.prems obtain x where x: "score ! i = Num x"
    by (auto simp: is_score_def split: cell.splits)
  from Cons have ih: "group_values (filter (\<lambda>(k, v). NaN \<notin> set k) (map (\<lambda>i. (row_key_at keys i, score ! i)) is)) k =
     scores_at score (filter (\<lambda>i. NaN \<notin> set k \<and> row_key_at keys i = k) is)"
    by simp
  show ?case
    using ih by (auto simp: group_values_def scores_at_def x num_of_def)
qed

lemma group_values_members:
  assumes "list_all is_score score" "length score = len"
  shows "group_values (keyed_rows len keys score) k = scores_at score (members len keys k)"
proof -
  have "\<forall>i \<in> set [0..<len]. is_score (score ! i)"
    using assms by (simp add: list_all_length)
  from group_values_indices [OF this, of keys k] show ?thesis
    by (simp add: keyed_rows_def members_def row_key_at_def)
qed

lemma sum_list_indicator:
  "distinct ks \<Longrightarrow> (\<Sum>k\<leftarrow>ks. if k = a then 1 else 0) = (if a \<in> set ks then 1 else (0::nat))"
  by (induction ks) auto

lemma sum_group_sizes:
  assumes "distinct ks" "\<forall>x \<in> set xs. P x \<longrightarrow> f x \<in> set ks"
  shows "(\<Sum>k\<leftarrow>ks. length (filter (\<lambda>x. P x \<and> f x = k) xs)) = length (filter P xs)"
  using assms(2)
proof (induction xs)
  case Nil
  show ?case by simp
next
  case (Cons x xs)
  have "(\<Sum>k\<leftarrow>ks. length (filter (\<lambda>x. P x \<and> f x = k) (x # xs))) =
      (\<Sum>k\<leftarrow>ks. (if P x \<and> k = f x then 1 else 0) + length (filter (\<lambda>x. P x \<and> f x = k) xs))"
    by (rule arg_cong [where f = sum_list]) auto
  also have "\<dots> = (\<Sum>k\<leftarrow>ks. if P x \<and> k = f x then 1 else 0) + (\<Sum>k\<leftarrow>ks. length (filter (\<lambda>x. P x \<and> f x = k) xs))"
    by (simp add: sum_list_addf)
  also have "(\<Sum>k\<leftarrow>ks. if P x \<and> k = f x then 1 else 0) = (if P x then 1 else (0::nat))"
  proof (cases "P x")
    case True
    with Cons.prems have "f x \<in> set ks" by simp
    then show ?thesis using True sum_list_indicator [OF assms(1), of "f x"] by simp
  next
    case False
    then show ?thesis by simp
  qed
  also have "(\<Sum>k\<leftarrow>ks. length (filter (\<lambda>x. P x \<and> f x = k) xs)) = length (filter P xs)"
    using Cons by simp
  finally show ?case by simp
qed

lemma members_alt:
  "members len keys k = filter (\<lambda>i. NaN \<notin> set (row_key_at keys i) \<and> row_key_at keys i = k) [0..<len]"
  unfolding members_def by (rule filter_cong) auto

lemma fst_keyed_rows: "map fst (keyed_rows len keys score) = map (row_key_at keys) (keyed len keys)"
  by (simp add: keyed_rows_def keyed_def filter_map comp_def row_key_at_def)

lemma sum_members:
  assumes "distinct ks" "row_key_at keys ` set (keyed len keys) \<subseteq> set ks"
  shows "(\<Sum>k\<leftarrow>ks. length (members len keys k)) = length (keyed len keys)"
proof -
  have "\<forall>i \<in> set [0..<len]. NaN \<notin> set (row_key_at keys i) \<longrightarrow> row_key_at keys i \<in> set ks"
    using assms(2) by (auto simp: keyed_def)
  from sum_group_sizes [OF assms(1) this] show ?thesis
    by (simp add: members_alt keyed_def)
qed

lemma mean_bounds:
  assumes "xs \<noteq> []" "\<forall>x \<in> set xs. 0 \<le> x \<and> x \<le> (5::rat)"
  shows "\<exists>m. mean_of xs = Some m \<and> 0 \<le> m \<and> m \<le> 5"
proof -
  have lo: "0 \<le> sum_list xs" using assms(2) by (simp add: sum_list_nonneg)
  have hi: "sum_list xs \<le> 5 * of_nat (length xs)"
    using assms(2) by (induction xs) (auto simp: algebra_simps)
  let ?n = "real (length xs)"
  have n: "0 < ?n" using assms(1) by simp
  have "0 \<le> (of_rat (sum_list xs) :: real)" using lo by (simp add: zero_le_of_rat_iff)
  then have a: "0 \<le> of_rat (sum_list xs) / ?n" using n by simp
  have "(of_rat (sum_list xs) :: real) \<le> of_rat (5 * of_nat (length xs))"
    using hi by (simp only: of_rat_less_eq)
  then have "(of_rat (sum_list xs) :: real) \<le> 5 * ?n"
    by (simp add: of_rat_mult)
  then have b: "of_rat (sum_list xs) / ?n \<le> 5" using n by (simp add: pos_divide_le_eq)
  from a b assms(1) show ?thesis by (simp add: mean_of_def)
qed

lemma get_col_present: "c \<in> set (columns df) \<Longrightarrow> \<exists>s. get_col df c = Inr s"
  by (cases "map_of df c") (auto simp: get_col_def columns_def map_of_eq_None_iff)

lemma map_of_absent: "(map_of df c = None) = (c \<notin> set (columns df))"
  by (simp add: columns_def map_of_eq_None_iff)

lemma get_col_absent: "c \<notin> set (columns df) \<Longrightarrow> get_col df c = Inl (KeyError c)"
  using map_of_absent [of df c] by (simp add: get_col_def)

lemma select_present:
  "set cs \<subseteq> set (columns df) \<Longrightarrow> \<exists>ss. select df cs = Inr ss"
proof (induction cs)
  case Nil
  show ?case by simp
next
  case (Cons c cs)
  then obtain s ss where "get_col df c = Inr s" "select df cs = Inr ss"
    using get_col_present [of c df] by auto
  then show ?case by simp
qed

lemma select_columns: "select df cs = Inr ss \<Longrightarrow> set cs \<subseteq> set (columns df)"
proof (induction cs arbitrary: ss)
  case Nil
  show ?case by simp
next
  case (Cons c cs)
  from Cons.prems obtain s where s: "get_col df c = Inr s"
    by (cases "get_col df c") auto
  with Cons.prems obtain ss' where "select df cs = Inr ss'"
    by (cases "select df cs") auto
  then have "set cs \<subseteq> set (columns df)" by (rule Cons.IH)
  moreover from s have "c \<in> set (columns df)"
    using get_col_absent [of c df] by (cases "c \<in> set (columns df)") auto
  ultimately show ?case by simp
qed

lemma group_keys_present: "set cs \<subseteq> set (columns df) \<Longrightarrow> group_keys df cs = select df cs"
  by (simp add: group_keys_def list_all_iff subset_eq)

lemma group_keys_select: "select df cs = Inr ss \<Longrightarrow> group_keys df cs = Inr ss"
  using group_keys_present [OF select_columns] by simp

lemma get_col_Inr: "get_col df c = Inr s \<Longrightarrow> map_of df c = Some s"
  by (simp add: get_col_def split: option.splits)

lemma summarize_groups:
  assumes "wf_frame df" "select df group_cols = Inr keys"
    "get_col df ''literacy_score'' = Inr score" "list_all is_score score"
  shows "\<exists>ks. summarize extra df group_cols = Inr (map (group_row (nrows df) keys score) ks) \<and>
     distinct ks \<and> row_key_at keys ` set (keyed (nrows df) keys) \<subseteq> set ks"
proof -
  let ?n = "nrows df"
  let ?rows = "keyed_rows ?n keys score"
  let ?ks = "remdups (map fst ?rows @ extra)"
  have len: "length score = ?n"
    using assms(1,3) by (intro wf_frame_length) (auto dest: get_col_Inr)
  have row: "summary_of ?rows k = group_row ?n keys score k" for k
    by (simp add: summary_of_def group_row_def group_values_members [OF assms(4) len])
  have "summarize extra df group_cols = Inr (map (summary_of ?rows) ?ks)"
    by (simp add: summarize_def group_keys_select [OF assms(2)] assms(3) Let_def)
  then have a: "summarize extra df group_cols = Inr (map (group_row ?n keys score) ?ks)"
    by (simp add: row)
  have b: "distinct ?ks" by simp
  have c: "row_key_at keys ` set (keyed ?n keys) \<subseteq> set ?ks"
    using fst_keyed_rows [of ?n keys score] by (auto simp del: map_map)
  from a b c show ?thesis by blast
qed

lemma std_of_short: "length xs < 2 \<Longrightarrow> std_of xs = None"
  by (simp add: std_of_def)

lemma members_scores:
  assumes "list_all is_score score" "length score = len"
  shows "\<forall>x \<in> set (scores_at score (members len keys k)). 0 \<le> x \<and> x \<le> 5"
proof
  fix x assume "x \<in> set (scores_at score (members len keys k))"
  then obtain i where i: "i < len" and x: "x = num_of (score ! i)"
    by (auto simp: scores_at_def members_def)
  from assms i have "is_score (score ! i)" by (simp add: list_all_length)
  with x show "0 \<le> x \<and> x \<le> 5"
    by (auto simp: is_score_def num_of_def split: cell.splits)
qed

text \<open>
  Claim C6. On a frame whose grouping columns are there and whose \<open>literacy_score\<close> cells
  are the scores of the script (numbers from 0 to 5), \<open>summarize\<close> returns a table, for
  any grouping columns. Each row of the table has the count \<open>n\<close> of the rows of its
  group, the mean of their scores (missing for a group without rows), the sample
  standard deviation with divisor \<open>n - 1\<close> (missing below two rows) and the standard error
  \<open>std / sqrt (max n 1)\<close>; the mean of a group with rows lies between 0 and 5; and the
  counts of the table add up to the number of rows whose group key has no missing cell.
\<close>

theorem summarize_table:
  assumes "wf_frame df" "select df group_cols = Inr keys"
    "get_col df ''literacy_score'' = Inr score" "list_all is_score score"
  shows "\<exists>tbl. summarize extra df group_cols = Inr tbl \<and>
     (\<forall>r \<in> set tbl.
        let g = members (nrows df) keys (row_key r); xs = scores_at score g
        in row_n r = length g \<and>
           row_mean r = (if g = [] then None else Some (of_rat (sum_list xs) / real (length g))) \<and>
           row_std r =
             (if length g < 2 then None
              else Some (sqrt ((\<Sum>x\<leftarrow>xs. (of_rat x - of_rat (sum_list xs) / real (length g))\<^sup>2)
                          / real (length g - 1)))) \<and>
           row_se r = map_option (\<lambda>s. s / sqrt (real (max (row_n r) 1))) (row_std r) \<and>
           (g \<noteq> [] \<longrightarrow> (\<exists>m. row_mean r = Some m \<and> 0 \<le> m \<and> m \<le> 5))) \<and>
     sum_list (map row_n tbl) = length (keyed (nrows df) keys)"
proof -
  let ?n = "nrows df"
  from summarize_groups [OF assms, of extra] obtain ks where
    t: "summarize extra df group_cols = Inr (map (group_row ?n keys score) ks)"
    and d: "distinct ks" and c: "row_key_at keys ` set (keyed ?n keys) \<subseteq> set ks"
    by blast
  have len: "length score = ?n"
    using assms(1,3) by (intro wf_frame_length) (auto dest: get_col_Inr)
  have rows: "let g = members ?n keys (row_key r); xs = scores_at score g
        in row_n r = length g \<and>
           row_mean r = (if g = [] then None else Some (of_rat (sum_list xs) / real (length g))) \<and>
           row_std r =
             (if length g < 2 then None
              else Some (sqrt ((\<Sum>x\<leftarrow>xs. (of_rat x - of_rat (sum_list xs) / real (length g))\<^sup>2)
                          / real (length g - 1)))) \<and>
           row_se r = map_option (\<lambda>s. s / sqrt (real (max (row_n r) 1))) (row_std r) \<and>
           (g \<noteq> [] \<longrightarrow> (\<exists>m. row_mean r = Some m \<and> 0 \<le> m \<and> m \<le> 5))"
    if "r \<in> set (map (group_row ?n keys score) ks)" for r
  proof -
    from that obtain k where r: "r = group_row ?n keys score k" by auto
    let ?g = "members ?n keys k"
    let ?xs = "scores_at score ?g"
    have lx: "length ?xs = length ?g" by (simp add: scores_at_def)
    have e: "(?xs = []) = (?g = [])" by (simp add: scores_at_def)
    have m: "?g \<noteq> [] \<longrightarrow> (\<exists>m. mean_of ?xs = Some m \<and> 0 \<le> m \<and> m \<le> 5)"
      using mean_bounds [of ?xs] members_scores [OF assms(4) len, of keys k] e by blast
    show ?thesis
      using m by (simp add: r group_row_def Let_def lx e mean_of_def std_of_def se_of_def)
  qed
  have "sum_list (map row_n (map (group_row ?n keys score) ks)) = (\<Sum>k\<leftarrow>ks. length (members ?n keys k))"
    by (simp add: comp_def group_row_def Let_def scores_at_def)
  also have "\<dots> = length (keyed ?n keys)"
    by (rule sum_members [OF d c])
  finally have s: "sum_list (map row_n (map (group_row ?n keys score) ks)) = length (keyed ?n keys)" .
  from t rows s show ?thesis by blast
qed

text \<open>
  The theorem at a frame of four respondents grouped by gender: two men, one woman and
  one respondent of missing gender; the counts of the table add up to 3.
\<close>

theorem summarize_table_witness:
  "wf_frame [(''Gender'', [Str ''Male'', Str ''Female'', Str ''Male'', NaN]),
      (''literacy_score'', [Num 1, Num 4, Num 3, Num 5])] \<and>
   select [(''Gender'', [Str ''Male'', Str ''Female'', Str ''Male'', NaN]),
      (''literacy_score'', [Num 1, Num 4, Num 3, Num 5])] [''Gender''] = Inr [[Str ''Male'', Str ''Female'', Str ''Male'', NaN]] \<and>
   get_col [(''Gender'', [Str ''Male'', Str ''Female'', Str ''Male'', NaN]),
      (''literacy_score'', [Num 1, Num 4, Num 3, Num 5])] ''literacy_score'' = Inr [Num 1, Num 4, Num 3, Num 5] \<and>
   list_all is_score [Num 1, Num 4, Num 3, Num 5] \<and>
   (\<exists>tbl. summarize [] [(''Gender'', [Str ''Male'', Str ''Female'', Str ''Male'', NaN]),
      (''literacy_score'', [Num 1, Num 4, Num 3, Num 5])] [''Gender''] = Inr tbl \<and> sum_list (map row_n tbl) = 3)"
proof -
  let ?df = "[(''Gender'', [Str ''Male'', Str ''Female'', Str ''Male'', NaN]),
      (''literacy_score'', [Num 1, Num 4, Num 3, Num 5])]"
  let ?keys = "[[Str ''Male'', Str ''Female'', Str ''Male'', NaN]]"
  let ?score = "[Num 1, Num 4, Num 3, Num 5]"
  have wf: "wf_frame ?df" by code_simp
  have sel: "select ?df [''Gender''] = Inr ?keys" by code_simp
  have sc: "get_col ?df ''literacy_score'' = Inr ?score" by code_simp
  have ok: "list_all is_score ?score" by code_simp
  have k: "length (keyed (nrows ?df) ?keys) = 3" by code_simp
  from summarize_table [OF wf sel sc ok, of "[]"] obtain tbl where
    "summarize [] ?df [''Gender''] = Inr tbl"
    "sum_list (map row_n tbl) = length (keyed (nrows ?df) ?keys)"
    by blast
  with k have "\<exists>tbl. summarize [] ?df [''Gender''] = Inr tbl \<and> sum_list (map row_n tbl) = 3"
    by auto
  with wf sel sc ok show ?thesis by blast
qed

text \<open>
  Claim C10. When the group of a respondent has that respondent only, the table has
  exactly one row for the group, with \<open>n = 1\<close>, the respondent's score as the mean, and
  a missing standard deviation and standard error: the guard \<open>max n 1\<close> divides a missing
  standard deviation, which stays missing.
\<close>

theorem singleton_group:
  assumes "wf_frame df" "select df group_cols = Inr keys"
    "get_col df ''literacy_score'' = Inr score" "list_all is_score score"
    "members (nrows df) keys (row_key_at keys i) = [i]"
  shows "\<exists>tbl r. summarize extra df group_cols = Inr tbl \<and> r \<in> set tbl \<and>
     row_key r = row_key_at keys i \<and> row_n r = 1 \<and>
     row_mean r = Some (of_rat (num_of (score ! i))) \<and> row_std r = None \<and> row_se r = None \<and>
     (\<forall>r' \<in> set tbl. row_key r' = row_key_at keys i \<longrightarrow> r' = r)"
proof -
  let ?n = "nrows df"
  let ?k = "row_key_at keys i"
  from summarize_groups [OF assms(1-4), of extra] obtain ks where
    t: "summarize extra df group_cols = Inr (map (group_row ?n keys score) ks)"
    and c: "row_key_at keys ` set (keyed ?n keys) \<subseteq> set ks"
    by blast
  let ?r = "group_row ?n keys score ?k"
  have "i \<in> set (members ?n keys ?k)" by (simp add: assms(5))
  then have "i \<in> set (keyed ?n keys)" by (simp add: members_def keyed_def)
  with c have "?k \<in> set ks" by blast
  then have mem: "?r \<in> set (map (group_row ?n keys score) ks)" by simp
  have key: "row_key (group_row ?n keys score k) = k" for k
    by (simp add: group_row_def Let_def)
  have vals: "row_n ?r = 1 \<and> row_mean ?r = Some (of_rat (num_of (score ! i))) \<and>
      row_std ?r = None \<and> row_se ?r = None"
    by (simp add: group_row_def Let_def assms(5) scores_at_def mean_of_def std_of_def se_of_def)
  have uniq: "\<forall>r' \<in> set (map (group_row ?n keys score) ks). row_key r' = ?k \<longrightarrow> r' = ?r"
    using key by auto
  from t mem key [of ?k] vals uniq show ?thesis by blast
qed

text \<open>
  The theorem at the frame of four respondents above: the one woman, of score 4, is a
  group of her own.
\<close>

theorem singleton_group_witness:
  "members 4 [[Str ''Male'', Str ''Female'', Str ''Male'', NaN]] [Str ''Female''] = [1] \<and>
   (\<exists>tbl r. summarize [] [(''Gender'', [Str ''Male'', Str ''Female'', Str ''Male'', NaN]),
      (''literacy_score'', [Num 1, Num 4, Num 3, Num 5])] [''Gender''] = Inr tbl \<and> r \<in> set tbl \<and>
      row_key r = [Str ''Female''] \<and> row_n r = 1 \<and> row_mean r = Some 4 \<and>
      row_std r = None \<and> row_se r = None)"
proof -
  let ?df = "[(''Gender'', [Str ''Male'', Str ''Female'', Str ''Male'', NaN]),
      (''literacy_score'', [Num 1, Num 4, Num 3, Num 5])]"
  let ?keys = "[[Str ''Male'', Str ''Female'', Str ''Male'', NaN]]"
  let ?score = "[Num 1, Num 4, Num 3, Num 5]"
  have wf: "wf_frame ?df" by code_simp
  have sel: "select ?df [''Gender''] = Inr ?keys" by code_simp
  have sc: "get_col ?df ''literacy_score'' = Inr ?score" by code_simp
  have ok: "list_all is_score ?score" by code_simp
  have n: "nrows ?df = 4" by code_simp
  have key: "row_key_at ?keys 1 = [Str ''Female'']" by code_simp
  have m: "members 4 ?keys [Str ''Female''] = [1]" by code_simp
  then have m': "members (nrows ?df) ?keys (row_key_at ?keys 1) = [1]"
    unfolding n key .
  have v: "(of_rat (num_of (?score ! 1)) :: real) = 4" by (simp add: num_of_def)
  from singleton_group [OF wf sel sc ok m', of "[]"] obtain tbl r where
    "summarize [] ?df [''Gender''] = Inr tbl" "r \<in> set tbl" "row_key r = row_key_at ?keys 1"
    "row_n r = 1" "row_mean r = Some (of_rat (num_of (?score ! 1)))" "row_std r = None"
    "row_se r = None"
    by blast
  then have "\<exists>tbl r. summarize [] ?df [''Gender''] = Inr tbl \<and> r \<in> set tbl \<and>
      row_key r = [Str ''Female''] \<and> row_n r = 1 \<and> row_mean r = Some 4 \<and>
      row_std r = None \<and> row_se r = None"
    unfolding key v by blast
  with m show ?thesis by blast
qed

section \<open>The run and the columns it needs (claim C3)\<close>

lemma columns_set_col: "set (columns (set_col col s df)) = insert col (set (columns df))"
  by (auto simp: set_col_def columns_update_col) (auto simp: columns_def)

lemma summarize_present:
  assumes "set group_cols \<subseteq> set (columns df)" "''literacy_score'' \<in> set (columns df)"
  shows "\<exists>tbl. summarize extra df group_cols = Inr tbl"
proof -
  from select_present [OF assms(1)] obtain keys where "select df group_cols = Inr keys" ..
  moreover from get_col_present [OF assms(2)] obtain score where
    "get_col df ''literacy_score'' = Inr score" ..
  ultimately show ?thesis by (simp add: summarize_def group_keys_present [OF assms(1)] Let_def)
qed

lemma summarize_absent:
  "c \<notin> set (columns df) \<Longrightarrow> nrows df \<noteq> 1 \<Longrightarrow> summarize extra df [c] = Inl (KeyError c)"
  by (simp add: summarize_def group_keys_def get_col_absent)

lemma summarize_absent_second:
  "a \<in> set (columns df) \<Longrightarrow> c \<notin> set (columns df) \<Longrightarrow> nrows df \<noteq> 2 \<Longrightarrow>
   summarize extra df [a, c] = Inl (KeyError c)"
  using get_col_present [of a df]
  by (auto simp: summarize_def group_keys_def get_col_absent)

lemma summarize_one_row:
  "c \<notin> set (columns df) \<Longrightarrow> nrows df = 1 \<Longrightarrow> ''literacy_score'' \<in> set (columns df) \<Longrightarrow>
   \<exists>tbl. summarize extra df [c] = Inr tbl"
  using get_col_present [of "''literacy_score''" df]
  by (auto simp: summarize_def group_keys_def Let_def)

lemma add_question_scores_columns:
  assumes "set cols \<subseteq> set (columns df)" "\<forall>c \<in> set cols. dict_get correct_answers c \<noteq> None"
  shows "\<exists>d. add_question_scores cols df = Inr d \<and>
     set (columns d) = set (columns df) \<union> (\<lambda>c. c @ ''_score'') ` set cols"
  using assms
proof (induction cols arbitrary: df)
  case Nil
  show ?case by simp
next
  case (Cons c cols)
  from Cons.prems obtain s a where s: "get_col df c = Inr s" and a: "dict_get correct_answers c = Some a"
    using get_col_present [of c df] by auto
  let ?d = "set_col (c @ ''_score'') (astype_int (eq_scalar s a)) df"
  have "set cols \<subseteq> set (columns ?d)"
    using Cons.prems(1) by (auto simp: columns_set_col)
  from Cons.IH [OF this] Cons.prems(2) obtain d where
    "add_question_scores cols ?d = Inr d"
    "set (columns d) = set (columns ?d) \<union> (\<lambda>c. c @ ''_score'') ` set cols"
    by auto
  then show ?case
    by (auto simp: s a columns_set_col)
qed

lemma literacy_answers: "\<forall>c \<in> set LITERACY_COLS. dict_get correct_answers c \<noteq> None"
  by (simp add: LITERACY_COLS_def correct_answers_def dict_get_def)

lemma add_literacy_score_columns:
  assumes "set LITERACY_COLS \<subseteq> set (columns df)"
  shows "\<exists>d. add_literacy_score df = Inr d \<and>
     set (columns d) =
       set (columns df) \<union> (\<lambda>c. c @ ''_score'') ` set LITERACY_COLS \<union> {''literacy_score''}"
proof -
  from add_question_scores_columns [OF assms literacy_answers] obtain d where
    d: "add_question_scores LITERACY_COLS df = Inr d"
      "set (columns d) = set (columns df) \<union> (\<lambda>c. c @ ''_score'') ` set LITERACY_COLS"
    by blast
  have "set (map (\<lambda>c. c @ ''_score'') LITERACY_COLS) \<subseteq> set (columns d)"
    using d(2) by auto
  from select_present [OF this] obtain ss where
    "select d (map (\<lambda>c. c @ ''_score'') LITERACY_COLS) = Inr ss" ..
  with d show ?thesis
    by (auto simp: add_literacy_score_def columns_set_col)
qed

lemma columns_add_age_group:
  "set (columns (add_age_group parse d)) =
     set (columns d) \<union>
       (if ''Age'' \<in> set (columns d) then {''Age_numeric'', ''Age_group''}
        else if ''Age_Category_Code'' \<in> set (columns d) then {''Age_group''} else {})"
proof (cases "map_of d ''Age''")
  case (Some age)
  then have "''Age'' \<in> set (columns d)"
    using map_of_absent [of d "''Age''"] by simp
  then show ?thesis
    by (auto simp: add_age_group_def Let_def columns_set_col Some)
next
  case None
  then have na: "''Age'' \<notin> set (columns d)"
    using map_of_absent [of d "''Age''"] by simp
  show ?thesis
  proof (cases "map_of d ''Age_Category_Code''")
    case (Some code)
    then have "''Age_Category_Code'' \<in> set (columns d)"
      using map_of_absent [of d "''Age_Category_Code''"] by simp
    then show ?thesis
      using na by (auto simp: add_age_group_def columns_set_col None Some)
  next
    case None': None
    then have "''Age_Category_Code'' \<notin> set (columns d)"
      using map_of_absent [of d "''Age_Category_Code''"] by simp
    then show ?thesis
      using na by (simp add: add_age_group_def None None')
  qed
qed

lemma run_steps_append:
  "run_steps (a @ b) df out =
     (case run_steps a df out of Completed out' \<Rightarrow> run_steps b df out' | Aborted e out' \<Rightarrow> Aborted e out')"
  by (induction a arbitrary: out) (auto split: sum.splits)

lemma score_names:
  "(\<lambda>c. c @ ''_score'') ` set LITERACY_COLS =
     {''Q_Interest_score'', ''Q_Inflation_score'', ''Q_Bonds_score'', ''Q_Risk_score'',
      ''Q_Mortgage_score''}"
  by (simp add: LITERACY_COLS_def)

lemma analysis_frame:
  assumes "has_questions_and_age df0"
  shows "\<exists>d. add_literacy_score df0 = Inr d \<and>
     ''literacy_score'' \<in> set (columns (add_age_group parse d)) \<and>
     ''Age_group'' \<in> set (columns (add_age_group parse d)) \<and>
     (''Gender'' \<in> set (columns (add_age_group parse d))) = (''Gender'' \<in> set (columns df0)) \<and>
     (''Census_Region'' \<in> set (columns (add_age_group parse d))) = (''Census_Region'' \<in> set (columns df0)) \<and>
     (''Census_Division'' \<in> set (columns (add_age_group parse d))) = (''Census_Division'' \<in> set (columns df0))"
proof -
  from assms have q: "set LITERACY_COLS \<subseteq> set (columns df0)"
    and age: "''Age'' \<in> set (columns df0) \<or> ''Age_Category_Code'' \<in> set (columns df0)"
    by (auto simp: has_questions_and_age_def list_all_iff)
  from add_literacy_score_columns [OF q] obtain d where
    d: "add_literacy_score df0 = Inr d"
      "set (columns d) =
         set (columns df0) \<union> (\<lambda>c. c @ ''_score'') ` set LITERACY_COLS \<union> {''literacy_score''}"
    by blast
  have sub: "set (columns df0) \<subseteq> set (columns d)" using d(2) by blast
  have c: "(c \<in> set (columns d)) = (c \<in> set (columns df0))"
    if "c \<notin> {''Q_Interest_score'', ''Q_Inflation_score'', ''Q_Bonds_score'', ''Q_Risk_score'',
      ''Q_Mortgage_score'', ''literacy_score''}" for c
    using that by (simp add: d(2) score_names)
  have 1: "''literacy_score'' \<in> set (columns (add_age_group parse d))"
    unfolding columns_add_age_group d(2) by simp
  have 2: "''Age_group'' \<in> set (columns (add_age_group parse d))"
    using age sub unfolding columns_add_age_group by auto
  have 3: "(''Gender'' \<in> set (columns (add_age_group parse d))) = (''Gender'' \<in> set (columns df0))"
    unfolding columns_add_age_group using c [of "''Gender''"] by simp
  have 4: "(''Census_Region'' \<in> set (columns (add_age_group parse d))) = (''Census_Region'' \<in> set (columns df0))"
    unfolding columns_add_age_group using c [of "''Census_Region''"] by simp
  have 5: "(''Census_Division'' \<in> set (columns (add_age_group parse d))) = (''Census_Division'' \<in> set (columns df0))"
    unfolding columns_add_age_group using c [of "''Census_Division''"] by simp
  from d(1) 1 2 3 4 5 show ?thesis by blast
qed

lemma tables_present:
  assumes "''literacy_score'' \<in> set (columns df)" "''Age_group'' \<in> set (columns df)"
    "''Gender'' \<in> set (columns df)"
  shows "\<exists>t1 t2 t3. tables extra df = Inr [Printed ByAge t1, Printed ByGender t2, Printed ByAgeGender t3]"
proof -
  obtain t1 where "summarize (extra [''Age_group'']) df [''Age_group''] = Inr t1"
    using summarize_present [of "[''Age_group'']" df] assms by auto
  moreover obtain t2 where "summarize (extra [''Gender'']) df [''Gender''] = Inr t2"
    using summarize_present [of "[''Gender'']" df] assms by auto
  moreover obtain t3 where
    "summarize (extra [''Age_group'', ''Gender'']) df [''Age_group'', ''Gender''] = Inr t3"
    using summarize_present [of "[''Age_group'', ''Gender'']" df] assms by auto
  ultimately show ?thesis by (simp add: tables_def)
qed

lemma tables_no_gender:
  assumes "''literacy_score'' \<in> set (columns df)" "''Age_group'' \<in> set (columns df)"
    "''Gender'' \<notin> set (columns df)"
  shows "tables extra df = Inl (KeyError ''Gender'')"
proof -
  obtain t1 where t1: "summarize (extra [''Age_group'']) df [''Age_group''] = Inr t1"
    using summarize_present [of "[''Age_group'']" df] assms by auto
  show ?thesis
  proof (cases "nrows df = 1")
    case False
    then show ?thesis
      by (simp add: tables_def t1 summarize_absent [OF assms(3)])
  next
    case True
    from summarize_one_row [OF assms(3) True assms(1)] obtain t2 where
      t2: "summarize (extra [''Gender'']) df [''Gender''] = Inr t2" ..
    from True have "nrows df \<noteq> 2" by simp
    from summarize_absent_second [OF assms(2,3) this]
    show ?thesis
      by (simp add: tables_def t1 t2)
  qed
qed

lemma geo_report_present:
  assumes "''literacy_score'' \<in> set (columns df)" "col \<in> set (columns df)"
  shows "\<exists>t. geo_report extra col tid file df = Inr [Printed tid t, Saved file]"
proof -
  obtain t where "summarize (extra [col]) df [col] = Inr t"
    using summarize_present [of "[col]" df] assms by auto
  then show ?thesis using assms(2) by (simp add: geo_report_def)
qed

lemma geo_report_absent:
  "col \<notin> set (columns df) \<Longrightarrow> geo_report extra col tid file df = Inr [not_found col]"
  by (simp add: geo_report_def)

lemma report_run:
  assumes "''literacy_score'' \<in> set (columns df)" "''Age_group'' \<in> set (columns df)"
    "''Gender'' \<in> set (columns df)"
  shows "\<exists>t1 t2 t3 R D.
     run_steps (report_steps extra) df [] =
       Completed ([Printed ByAge t1, Printed ByGender t2, Printed ByAgeGender t3,
          Saved ''literacy_by_age.png'', Saved ''literacy_by_gender.png'',
          Saved ''literacy_by_age_gender.png''] @ R @ D) \<and>
     (if ''Census_Region'' \<in> set (columns df)
      then \<exists>t. R = [Printed ByRegion t, Saved ''literacy_by_region.png'']
      else R = [not_found ''Census_Region'']) \<and>
     (if ''Census_Division'' \<in> set (columns df)
      then \<exists>t. D = [Printed ByDivision t, Saved ''literacy_by_division.png'']
      else D = [not_found ''Census_Division''])"
proof -
  from tables_present [OF assms, of extra] obtain t1 t2 t3 where
    t: "tables extra df = Inr [Printed ByAge t1, Printed ByGender t2, Printed ByAgeGender t3]"
    by blast
  obtain R where R: "geo_report extra ''Census_Region'' ByRegion ''literacy_by_region.png'' df = Inr R"
    "if ''Census_Region'' \<in> set (columns df)
      then \<exists>t. R = [Printed ByRegion t, Saved ''literacy_by_region.png'']
      else R = [not_found ''Census_Region'']"
    using geo_report_present [OF assms(1), of "''Census_Region''" extra ByRegion "''literacy_by_region.png''"]
      geo_report_absent [of "''Census_Region''" df extra ByRegion "''literacy_by_region.png''"]
    by (cases "''Census_Region'' \<in> set (columns df)") auto
  obtain D where D: "geo_report extra ''Census_Division'' ByDivision ''literacy_by_division.png'' df = Inr D"
    "if ''Census_Division'' \<in> set (columns df)
      then \<exists>t. D = [Printed ByDivision t, Saved ''literacy_by_division.png'']
      else D = [not_found ''Census_Division'']"
    using geo_report_present [OF assms(1), of "''Census_Division''" extra ByDivision "''literacy_by_division.png''"]
      geo_report_absent [of "''Census_Division''" df extra ByDivision "''literacy_by_division.png''"]
    by (cases "''Census_Division'' \<in> set (columns df)") auto
  have "run_steps (report_steps extra) df [] =
       Completed ([Printed ByAge t1, Printed ByGender t2, Printed ByAgeGender t3,
          Saved ''literacy_by_age.png'', Saved ''literacy_by_gender.png'',
          Saved ''literacy_by_age_gender.png''] @ R @ D)"
    by (simp add: report_steps_def t R(1) D(1) age_gender_plots_def)
  with R(2) D(2) show ?thesis by blast
qed

lemma boxplot_steps_absent:
  "''Census_Region'' \<notin> set (columns df) \<Longrightarrow>
   run_steps boxplot_steps df out = Aborted (ValueError ''Census_Region'') out"
  using map_of_absent [of df "''Census_Region''"]
  by (simp add: boxplot_steps_def boxplot_def)

lemma run_no_gender:
  assumes "has_questions_and_age df0" "''Gender'' \<notin> set (columns df0)"
  shows "run parse extra df0 = Aborted (KeyError ''Gender'') []"
proof -
  from analysis_frame [OF assms(1), of parse] obtain d where
    d: "add_literacy_score df0 = Inr d"
      "''literacy_score'' \<in> set (columns (add_age_group parse d))"
      "''Age_group'' \<in> set (columns (add_age_group parse d))"
      "(''Gender'' \<in> set (columns (add_age_group parse d))) = (''Gender'' \<in> set (columns df0))"
    by blast
  from d(4) assms(2) have "''Gender'' \<notin> set (columns (add_age_group parse d))" by simp
  from tables_no_gender [OF d(2,3) this, of extra]
  show ?thesis
    by (simp add: run_def d(1) report_steps_def)
qed

lemma run_report:
  assumes "has_required df0"
  shows "\<exists>d out R D. add_literacy_score df0 = Inr d \<and>
     run_steps (report_steps extra) (add_age_group parse d) [] = Completed out \<and>
     run parse extra df0 = run_steps boxplot_steps (add_age_group parse d) out \<and>
     ''literacy_score'' \<in> set (columns (add_age_group parse d)) \<and>
     (''Census_Region'' \<in> set (columns (add_age_group parse d))) = (''Census_Region'' \<in> set (columns df0)) \<and>
     (''Census_Division'' \<in> set (columns (add_age_group parse d))) = (''Census_Division'' \<in> set (columns df0)) \<and>
     (\<exists>t1 t2 t3. out = [Printed ByAge t1, Printed ByGender t2, Printed ByAgeGender t3,
          Saved ''literacy_by_age.png'', Saved ''literacy_by_gender.png'',
          Saved ''literacy_by_age_gender.png''] @ R @ D) \<and>
     (if ''Census_Region'' \<in> set (columns df0)
      then \<exists>t. R = [Printed ByRegion t, Saved ''literacy_by_region.png'']
      else R = [not_found ''Census_Region'']) \<and>
     (if ''Census_Division'' \<in> set (columns df0)
      then \<exists>t. D = [Printed ByDivision t, Saved ''literacy_by_division.png'']
      else D = [not_found ''Census_Division''])"
proof -
  from assms have qa: "has_questions_and_age df0" and g: "''Gender'' \<in> set (columns df0)"
    by (simp_all add: has_required_def)
  from analysis_frame [OF qa, of parse] obtain d where
    d: "add_literacy_score df0 = Inr d"
      "''literacy_score'' \<in> set (columns (add_age_group parse d))"
      "''Age_group'' \<in> set (columns (add_age_group parse d))"
      "(''Gender'' \<in> set (columns (add_age_group parse d))) = (''Gender'' \<in> set (columns df0))"
      "(''Census_Region'' \<in> set (columns (add_age_group parse d))) = (''Census_Region'' \<in> set (columns df0))"
      "(''Census_Division'' \<in> set (columns (add_age_group parse d))) = (''Census_Division'' \<in> set (columns df0))"
    by blast
  let ?A = "add_age_group parse d"
  from d(4) g have ga: "''Gender'' \<in> set (columns ?A)" by simp
  from report_run [OF d(2,3) ga, of extra] obtain t1 t2 t3 R D where
    r: "run_steps (report_steps extra) ?A [] =
       Completed ([Printed ByAge t1, Printed ByGender t2, Printed ByAgeGender t3,
          Saved ''literacy_by_age.png'', Saved ''literacy_by_gender.png'',
          Saved ''literacy_by_age_gender.png''] @ R @ D)"
      "if ''Census_Region'' \<in> set (columns ?A)
        then \<exists>t. R = [Printed ByRegion t, Saved ''literacy_by_region.png'']
        else R = [not_found ''Census_Region'']"
      "if ''Census_Division'' \<in> set (columns ?A)
        then \<exists>t. D = [Printed ByDivision t, Saved ''literacy_by_division.png'']
        else D = [not_found ''Census_Division'']"
    by blast
  let ?out = "[Printed ByAge t1, Printed ByGender t2, Printed ByAgeGender t3,
          Saved ''literacy_by_age.png'', Saved ''literacy_by_gender.png'',
          Saved ''literacy_by_age_gender.png''] @ R @ D"
  have b: "run parse extra df0 = run_steps boxplot_steps ?A ?out"
    by (simp add: run_def d(1) run_steps_append r(1))
  from r(2) d(5) have R: "if ''Census_Region'' \<in> set (columns df0)
        then \<exists>t. R = [Printed ByRegion t, Saved ''literacy_by_region.png'']
        else R = [not_found ''Census_Region'']"
    by simp
  from r(3) d(6) have D: "if ''Census_Division'' \<in> set (columns df0)
        then \<exists>t. D = [Printed ByDivision t, Saved ''literacy_by_division.png'']
        else D = [not_found ''Census_Division'']"
    by simp
  have e: "\<exists>t1 t2 t3. ?out = [Printed ByAge t1, Printed ByGender t2, Printed ByAgeGender t3,
          Saved ''literacy_by_age.png'', Saved ''literacy_by_gender.png'',
          Saved ''literacy_by_age_gender.png''] @ R @ D"
    by blast
  show ?thesis
    by (intro exI [of _ d] exI [of _ ?out] exI [of _ R] exI [of _ D] conjI d(1) r(1) b d(2) d(5) d(6) e R D)
qed

lemma run_without_region:
  assumes "has_required df0" "''Census_Region'' \<notin> set (columns df0)"
  shows "\<exists>out. run parse extra df0 = Aborted (ValueError ''Census_Region'') out \<and>
     not_found ''Census_Region'' \<in> set out \<and> (\<forall>t. Printed ByRegion t \<notin> set out) \<and>
     Saved ''literacy_by_region.png'' \<notin> set out \<and>
     (\<exists>t. Printed ByAge t \<in> set out) \<and> (\<exists>t. Printed ByGender t \<in> set out) \<and>
     (\<exists>t. Printed ByAgeGender t \<in> set out)"
proof -
  from run_report [OF assms(1), of extra parse] obtain d out R D t1 t2 t3 where
    b: "run parse extra df0 = run_steps boxplot_steps (add_age_group parse d) out"
    and g: "(''Census_Region'' \<in> set (columns (add_age_group parse d))) =
        (''Census_Region'' \<in> set (columns df0))"
    and out: "out = [Printed ByAge t1, Printed ByGender t2, Printed ByAgeGender t3,
          Saved ''literacy_by_age.png'', Saved ''literacy_by_gender.png'',
          Saved ''literacy_by_age_gender.png''] @ R @ D"
    and R: "if ''Census_Region'' \<in> set (columns df0)
      then \<exists>t. R = [Printed ByRegion t, Saved ''literacy_by_region.png'']
      else R = [not_found ''Census_Region'']"
    and D: "if ''Census_Division'' \<in> set (columns df0)
      then \<exists>t. D = [Printed ByDivision t, Saved ''literacy_by_division.png'']
      else D = [not_found ''Census_Division'']"
    by blast
  from g assms(2) have "''Census_Region'' \<notin> set (columns (add_age_group parse d))" by simp
  then have a: "run parse extra df0 = Aborted (ValueError ''Census_Region'') out"
    unfolding b by (rule boxplot_steps_absent)
  from R assms(2) have R': "R = [not_found ''Census_Region'']" by simp
  have "not_found ''Census_Region'' \<in> set out \<and> (\<forall>t. Printed ByRegion t \<notin> set out) \<and>
     Saved ''literacy_by_region.png'' \<notin> set out \<and>
     (\<exists>t. Printed ByAge t \<in> set out) \<and> (\<exists>t. Printed ByGender t \<in> set out) \<and>
     (\<exists>t. Printed ByAgeGender t \<in> set out)"
    using D by (auto simp: out R' not_found_def split: if_splits)
  with a show ?thesis by blast
qed

text \<open>
  Claim C3 at a frame of one respondent with the five questions, the age, the gender
  and the division, and no column \<open>Census_Region\<close>. The script prints the three tables
  by age and gender, and for the region the message that the column was not found,
  with no region table and no region bar chart: the guard of the bar chart does what
  the claim says. It then raises \<open>ValueError\<close> at the box plot of the region, which no
  test guards, and the run ends there instead of going on to the remaining charts.
\<close>

theorem boxplot_without_region:
  "\<exists>out. run (\<lambda>t. None) (\<lambda>g. []) example_no_region = Aborted (ValueError ''Census_Region'') out \<and>
     not_found ''Census_Region'' \<in> set out \<and> (\<forall>t. Printed ByRegion t \<notin> set out) \<and>
     Saved ''literacy_by_region.png'' \<notin> set out \<and>
     (\<exists>t. Printed ByAge t \<in> set out) \<and> (\<exists>t. Printed ByGender t \<in> set out) \<and>
     (\<exists>t. Printed ByAgeGender t \<in> set out)"
proof -
  have r: "has_required example_no_region" by code_simp
  have c: "''Census_Region'' \<notin> set (columns example_no_region)" by code_simp
  from run_without_region [OF r c] show ?thesis .
qed

text \<open>
  The tables by gender have no guard either: on the frame of one respondent without
  the column \<open>Gender\<close> the script raises \<open>KeyError\<close> before anything is given out.
\<close>

lemma run_without_gender:
  "run (\<lambda>t. None) (\<lambda>g. []) example_no_gender = Aborted (KeyError ''Gender'') []"
proof -
  have r: "has_questions_and_age example_no_gender" by code_simp
  have c: "''Gender'' \<notin> set (columns example_no_gender)" by code_simp
  from run_no_gender [OF r c] show ?thesis .
qed

end
